theory Spec2Isabelle
  imports Main "HOL-Library.Word" "HOL-Library.Char_ord" "HOL-Library.List_Lexorder"
begin

unbundle bit_operations_syntax

section \<open>Go values\<close>

text \<open>
  A Go byte slice and a Go string are both sequences of bytes: \<open>bytes\<close> is a list of
  8-bit characters. A nil slice and an empty slice both have length 0 and are the empty
  list. A run-time panic (index or slice bounds out of range) is the outcome \<open>Panic\<close>;
  a call that returns is \<open>Return\<close> of what it returns.
\<close>

type_synonym bytes = string

datatype 'a outcome = Panic | Return 'a

definition bind :: "'a outcome \<Rightarrow> ('a \<Rightarrow> 'b outcome) \<Rightarrow> 'b outcome" where
  "bind m f = (case m of Panic \<Rightarrow> Panic | Return x \<Rightarrow> f x)"

text \<open>\<open>xs[i]\<close>: panics when \<open>i\<close> is not below \<open>len(xs)\<close>.\<close>

definition index :: "'a list \<Rightarrow> nat \<Rightarrow> 'a outcome" where
  "index xs i = (if i < length xs then Return (xs ! i) else Panic)"

text \<open>
  \<open>xs[lo:hi]\<close>: the bound of a slice expression is the capacity, not the length. A
  slice is given as its elements \<open>xs\<close> and the elements \<open>spare\<close> of its backing array
  between its length and its capacity.
\<close>

definition slice :: "'a list \<Rightarrow> 'a list \<Rightarrow> nat \<Rightarrow> nat \<Rightarrow> 'a list outcome" where
  "slice xs spare lo hi =
     (if lo \<le> hi \<and> hi \<le> length xs + length spare
      then Return (take (hi - lo) (drop lo (xs @ spare))) else Panic)"

section \<open>encoding/hex\<close>

datatype hex_error = ErrLength | InvalidByteError char

definition hextable :: string where
  "hextable = ''0123456789abcdef''"

definition hex_EncodedLen :: "nat \<Rightarrow> nat" where
  "hex_EncodedLen n = n * 2"

definition hex_DecodedLen :: "nat \<Rightarrow> nat" where
  "hex_DecodedLen x = x div 2"

definition fromHexChar :: "char \<Rightarrow> nat option" where
  "fromHexChar c =
     (let n = (of_char c :: nat) in
      if 48 \<le> n \<and> n \<le> 57 then Some (n - 48)
      else if 97 \<le> n \<and> n \<le> 102 then Some (n - 97 + 10)
      else if 65 \<le> n \<and> n \<le> 70 then Some (n - 65 + 10)
      else None)"

text \<open>
  \<open>hex.Encode(dst, src)\<close> writes two digits per byte of \<open>src\<close> into \<open>dst\<close>, from
  index \<open>j\<close> on.
\<close>

fun hex_Encode_from :: "bytes \<Rightarrow> nat \<Rightarrow> bytes \<Rightarrow> bytes outcome" where
  "hex_Encode_from dst j [] = Return dst"
| "hex_Encode_from dst j (v # src) =
     (if j + 1 < length dst
      then hex_Encode_from
             (dst[j := hextable ! (of_char v div 16), j + 1 := hextable ! (of_char v mod 16)])
             (j + 2) src
      else Panic)"

definition hex_Encode :: "bytes \<Rightarrow> bytes \<Rightarrow> bytes outcome" where
  "hex_Encode dst src = hex_Encode_from dst 0 src"

text \<open>
  \<open>hex.Decode(dst, src)\<close> converts pairs of digits and stops at the first byte that is
  not a hexadecimal digit; an odd length is reported after the pairs are converted. It
  returns the number of bytes written and the error; the bytes written before the error
  stay in \<open>dst\<close>, which is returned here as well.
\<close>

fun hex_Decode_from :: "bytes \<Rightarrow> nat \<Rightarrow> bytes \<Rightarrow> (bytes \<times> nat \<times> hex_error option) outcome" where
  "hex_Decode_from dst i (p # q # src) =
     (case fromHexChar p of
        None \<Rightarrow> Return (dst, i, Some (InvalidByteError p))
      | Some a \<Rightarrow>
         (case fromHexChar q of
            None \<Rightarrow> Return (dst, i, Some (InvalidByteError q))
          | Some b \<Rightarrow>
             if i < length dst
             then hex_Decode_from (dst[i := char_of (a * 16 + b)]) (i + 1) src
             else Panic))"
| "hex_Decode_from dst i [p] =
     (case fromHexChar p of
        None \<Rightarrow> Return (dst, i, Some (InvalidByteError p))
      | Some a \<Rightarrow> Return (dst, i, Some ErrLength))"
| "hex_Decode_from dst i [] = Return (dst, i, None)"

definition hex_Decode :: "bytes \<Rightarrow> bytes \<Rightarrow> (bytes \<times> nat \<times> hex_error option) outcome" where
  "hex_Decode dst src = hex_Decode_from dst 0 src"

text \<open>\<open>make([]byte, n)\<close>: \<open>n\<close> zero bytes.\<close>

definition make_bytes :: "nat \<Rightarrow> bytes" where
  "make_bytes n = replicate n (char_of (0 :: nat))"

text \<open>
  The text of a byte string in hexadecimal, two lower-case digits per byte: what
  \<open>hex.Encode\<close> writes, and what the verb \<open>%x\<close> of \<open>fmt\<close> prints for a byte slice.
\<close>

definition hex_string :: "bytes \<Rightarrow> bytes" where
  "hex_string src =
     concat (map (\<lambda>v. [hextable ! (of_char v div 16), hextable ! (of_char v mod 16)]) src)"

section \<open>crypto/sha256 and crypto/hmac\<close>

type_synonym u32 = "32 word"

definition rotr :: "nat \<Rightarrow> u32 \<Rightarrow> u32" where
  "rotr n x = drop_bit n x OR push_bit (32 - n) x"

definition Ch :: "u32 \<Rightarrow> u32 \<Rightarrow> u32 \<Rightarrow> u32" where
  "Ch x y z = (x AND y) XOR (NOT x AND z)"

definition Maj :: "u32 \<Rightarrow> u32 \<Rightarrow> u32 \<Rightarrow> u32" where
  "Maj x y z = (x AND y) XOR (x AND z) XOR (y AND z)"

definition bsig0 :: "u32 \<Rightarrow> u32" where
  "bsig0 x = rotr 2 x XOR rotr 13 x XOR rotr 22 x"

definition bsig1 :: "u32 \<Rightarrow> u32" where
  "bsig1 x = rotr 6 x XOR rotr 11 x XOR rotr 25 x"

definition ssig0 :: "u32 \<Rightarrow> u32" where
  "ssig0 x = rotr 7 x XOR rotr 18 x XOR drop_bit 3 x"

definition ssig1 :: "u32 \<Rightarrow> u32" where
  "ssig1 x = rotr 17 x XOR rotr 19 x XOR drop_bit 10 x"

definition K256 :: "u32 list" where
  "K256 = [
   0x428A2F98, 0x71374491, 0xB5C0FBCF, 0xE9B5DBA5, 0x3956C25B, 0x59F111F1, 0x923F82A4, 0xAB1C5ED5,
   0xD807AA98, 0x12835B01, 0x243185BE, 0x550C7DC3, 0x72BE5D74, 0x80DEB1FE, 0x9BDC06A7, 0xC19BF174,
   0xE49B69C1, 0xEFBE4786, 0x0FC19DC6, 0x240CA1CC, 0x2DE92C6F, 0x4A7484AA, 0x5CB0A9DC, 0x76F988DA,
   0x983E5152, 0xA831C66D, 0xB00327C8, 0xBF597FC7, 0xC6E00BF3, 0xD5A79147, 0x06CA6351, 0x14292967,
   0x27B70A85, 0x2E1B2138, 0x4D2C6DFC, 0x53380D13, 0x650A7354, 0x766A0ABB, 0x81C2C92E, 0x92722C85,
   0xA2BFE8A1, 0xA81A664B, 0xC24B8B70, 0xC76C51A3, 0xD192E819, 0xD6990624, 0xF40E3585, 0x106AA070,
   0x19A4C116, 0x1E376C08, 0x2748774C, 0x34B0BCB5, 0x391C0CB3, 0x4ED8AA4A, 0x5B9CCA4F, 0x682E6FF3,
   0x748F82EE, 0x78A5636F, 0x84C87814, 0x8CC70208, 0x90BEFFFA, 0xA4506CEB, 0xBEF9A3F7, 0xC67178F2]"

definition H256 :: "u32 list" where
  "H256 = [0x6A09E667, 0xBB67AE85, 0x3C6EF372, 0xA54FF53A,
           0x510E527F, 0x9B05688C, 0x1F83D9AB, 0x5BE0CD19]"

text \<open>The message schedule: \<open>w[i]\<close> for \<open>i\<close> from 16 on, \<open>n\<close> more words.\<close>

fun expand :: "nat \<Rightarrow> u32 list \<Rightarrow> u32 list" where
  "expand 0 w = w"
| "expand (Suc n) w =
     expand n (w @ [ssig1 (w ! (length w - 2)) + w ! (length w - 7)
                    + ssig0 (w ! (length w - 15)) + w ! (length w - 16)])"

definition step256 :: "u32 list \<Rightarrow> u32 \<Rightarrow> u32 \<Rightarrow> u32 list" where
  "step256 s t1 t2 = [t1 + t2, s ! 0, s ! 1, s ! 2, s ! 3 + t1, s ! 4, s ! 5, s ! 6]"

definition round256 :: "u32 list \<Rightarrow> u32 \<times> u32 \<Rightarrow> u32 list" where
  "round256 s kw =
     step256 s (s ! 7 + bsig1 (s ! 4) + Ch (s ! 4) (s ! 5) (s ! 6) + fst kw + snd kw)
               (bsig0 (s ! 0) + Maj (s ! 0) (s ! 1) (s ! 2))"

definition compress :: "u32 list \<Rightarrow> u32 list \<Rightarrow> u32 list" where
  "compress h w = map2 (+) h (foldl round256 h (zip K256 (expand 48 w)))"

definition be32 :: "bytes \<Rightarrow> u32" where
  "be32 bs = foldl (\<lambda>acc c. push_bit 8 acc OR of_char c) 0 bs"

fun chunks :: "nat \<Rightarrow> nat \<Rightarrow> 'a list \<Rightarrow> 'a list list" where
  "chunks 0 k xs = []"
| "chunks (Suc n) k xs = take k xs # chunks n k (drop k xs)"

text \<open>The \<open>n\<close> bytes of \<open>v\<close>, most significant first.\<close>

definition be_bytes :: "nat \<Rightarrow> nat \<Rightarrow> bytes" where
  "be_bytes n v = map (\<lambda>i. char_of (v div 256 ^ i)) (rev [0..<n])"

definition pad256 :: "bytes \<Rightarrow> bytes" where
  "pad256 m =
     m @ char_of (128 :: nat) # replicate ((119 - length m mod 64) mod 64) (char_of (0 :: nat))
       @ be_bytes 8 (8 * length m)"

definition sha256 :: "bytes \<Rightarrow> bytes" where
  "sha256 m =
     concat (map (\<lambda>x. be_bytes 4 (unat x))
       (foldl (\<lambda>h b. compress h (map be32 (chunks 16 4 b))) H256
          (chunks (length (pad256 m) div 64) 64 (pad256 m))))"

definition xor_byte :: "nat \<Rightarrow> char \<Rightarrow> char" where
  "xor_byte p c = char_of ((of_char c :: nat) XOR p)"

definition hmac_key_block :: "bytes \<Rightarrow> bytes" where
  "hmac_key_block key =
     (let k = (if 64 < length key then sha256 key else key)
      in k @ replicate (64 - length k) (char_of (0 :: nat)))"

definition hmac_sha256 :: "bytes \<Rightarrow> bytes \<Rightarrow> bytes" where
  "hmac_sha256 key m =
     sha256 (map (xor_byte 0x5c) (hmac_key_block key)
             @ sha256 (map (xor_byte 0x36) (hmac_key_block key) @ m))"

text \<open>
  A MAC in progress, as \<open>hmac.New(sha256.New, key)\<close> makes it: \<open>Write\<close> appends to
  what is authenticated, \<open>Sum(nil)\<close> is the MAC of everything written so far.
\<close>

record hmac_state =
  hmac_key :: bytes
  hmac_written :: bytes

definition hmac_New :: "bytes \<Rightarrow> hmac_state" where
  "hmac_New key = \<lparr>hmac_key = key, hmac_written = []\<rparr>"

definition hmac_Write :: "hmac_state \<Rightarrow> bytes \<Rightarrow> hmac_state" where
  "hmac_Write mac p = mac\<lparr>hmac_written := hmac_written mac @ p\<rparr>"

definition hmac_Sum :: "hmac_state \<Rightarrow> bytes" where
  "hmac_Sum mac = hmac_sha256 (hmac_key mac) (hmac_written mac)"

definition hmac_Size :: nat where
  "hmac_Size = 32"

text \<open>\<open>hmac.Equal\<close> compares in constant time; its result is equality of the two slices.\<close>

definition hmac_Equal :: "bytes \<Rightarrow> bytes \<Rightarrow> bool" where
  "hmac_Equal mac1 mac2 = (mac1 = mac2)"

section \<open>Messages\<close>

record MsgHeader =
  Msg_id :: string
  Username :: string
  Session :: string
  Msg_type :: string

text \<open>
  A value of type \<open>interface{}\<close> is nil (\<open>None\<close>) or holds a dynamic value. A
  \<open>map[string]interface{}\<close> is nil (\<open>None\<close>) or a map.
\<close>

type_synonym 'v iface = "'v option"

type_synonym 'v gomap = "(string \<rightharpoonup> 'v iface) option"

record 'v ComposedMsg =
  Header :: MsgHeader
  Parent_header :: MsgHeader
  Metadata :: "'v gomap"
  Content :: "'v iface"

datatype error = InvalidSignatureError

definition zero_MsgHeader :: MsgHeader where
  "zero_MsgHeader = \<lparr>Msg_id = [], Username = [], Session = [], Msg_type = []\<rparr>"

definition zero_ComposedMsg :: "'v ComposedMsg" where
  "zero_ComposedMsg =
     \<lparr>Header = zero_MsgHeader, Parent_header = zero_MsgHeader, Metadata = None, Content = None\<rparr>"

section \<open>encoding/json\<close>

text \<open>
  The code calls \<open>json.Marshal\<close> and \<open>json.Unmarshal\<close> at three types and drops every
  error they return. The library is a parameter of the model: \<open>Marshal\<close> gives the bytes
  and the error, \<open>Unmarshal\<close> takes the bytes and the value its target holds and gives
  the value the target holds afterwards and the error.
\<close>

datatype json_error = SyntaxError | UnmarshalTypeError | UnsupportedValueError

record 'v encoding_json =
  Marshal_MsgHeader :: "MsgHeader \<Rightarrow> bytes \<times> json_error option"
  Marshal_map :: "'v gomap \<Rightarrow> bytes \<times> json_error option"
  Marshal_iface :: "'v iface \<Rightarrow> bytes \<times> json_error option"
  Unmarshal_MsgHeader :: "bytes \<Rightarrow> MsgHeader \<Rightarrow> MsgHeader \<times> json_error option"
  Unmarshal_map :: "bytes \<Rightarrow> 'v gomap \<Rightarrow> 'v gomap \<times> json_error option"
  Unmarshal_iface :: "bytes \<Rightarrow> 'v iface \<Rightarrow> 'v iface \<times> json_error option"

section \<open>WireMsgToComposedMsg\<close>

text \<open>The loop \<open>for string(msgparts[i]) != "<IDS|MSG>" { i++ }\<close>.\<close>

function scan_delimiter :: "bytes list \<Rightarrow> nat \<Rightarrow> nat outcome" where
  "scan_delimiter msgparts i =
     (if i < length msgparts
      then (if msgparts ! i \<noteq> ''<IDS|MSG>'' then scan_delimiter msgparts (i + 1) else Return i)
      else Panic)"
  by pat_completeness auto
termination
  by (relation "measure (\<lambda>(msgparts, i). length msgparts - i)") auto

declare scan_delimiter.simps [simp del]

text \<open>
  The result is the triple \<open>(msg, identities, err)\<close>. \<open>msg\<close> is a named result: it
  holds the zero value until the fields are assigned.
\<close>

definition WireMsgToComposedMsg ::
  "'v encoding_json \<Rightarrow> bytes list \<Rightarrow> bytes list \<Rightarrow> bytes
     \<Rightarrow> ('v ComposedMsg \<times> bytes list \<times> error option) outcome" where
  "WireMsgToComposedMsg J msgparts spare signkey =
     bind (scan_delimiter msgparts 0) (\<lambda>i.
     bind (if length signkey \<noteq> 0
           then bind (slice msgparts spare (i + 2) (i + 6)) (\<lambda>signed.
                bind (index msgparts (i + 1)) (\<lambda>sigtext.
                bind (hex_Decode (make_bytes (hex_DecodedLen (length sigtext))) sigtext)
                  (\<lambda>(signature, n, err).
                Return (hmac_Equal (hmac_Sum (foldl hmac_Write (hmac_New signkey) signed))
                          signature))))
           else Return True) (\<lambda>valid.
     if \<not> valid then Return (zero_ComposedMsg, [], Some InvalidSignatureError)
     else
     bind (index msgparts (i + 2)) (\<lambda>p2.
     bind (index msgparts (i + 3)) (\<lambda>p3.
     bind (index msgparts (i + 4)) (\<lambda>p4.
     bind (index msgparts (i + 5)) (\<lambda>p5.
     Return
       (\<lparr>Header = fst (Unmarshal_MsgHeader J p2 zero_MsgHeader),
         Parent_header = fst (Unmarshal_MsgHeader J p3 zero_MsgHeader),
         Metadata = fst (Unmarshal_map J p4 None),
         Content = fst (Unmarshal_iface J p5 None)\<rparr>,
        take i msgparts, None)))))))"

section \<open>ToWireMsg\<close>

definition ToWireMsg :: "'v encoding_json \<Rightarrow> 'v ComposedMsg \<Rightarrow> bytes \<Rightarrow> bytes list outcome" where
  "ToWireMsg J msg signkey =
     (let msgparts = replicate 5 [];
          msgparts = msgparts[1 := fst (Marshal_MsgHeader J (Header msg))];
          msgparts = msgparts[2 := fst (Marshal_MsgHeader J (Parent_header msg))];
          msg = (if Metadata msg = None then msg\<lparr>Metadata := Some Map.empty\<rparr> else msg);
          msgparts = msgparts[3 := fst (Marshal_map J (Metadata msg))];
          msgparts = msgparts[4 := fst (Marshal_iface J (Content msg))]
      in if length signkey \<noteq> 0
         then bind (hex_Encode (make_bytes (hex_EncodedLen hmac_Size))
                      (hmac_Sum (foldl hmac_Write (hmac_New signkey) (drop 1 msgparts))))
                (\<lambda>sig. Return (msgparts[0 := sig]))
         else Return msgparts)"

section \<open>crypto/rand and github.com/nu7hatch/gouuid\<close>

text \<open>
  A \<open>UUID\<close> is an array of 16 bytes. \<open>uuid.NewV4()\<close> allocates one and has
  \<open>rand.Read\<close> fill it; when \<open>rand.Read\<close> reports an error it returns the array as it
  is, with the error, and otherwise it sets the variant and the version. The random
  source is an input of the model: a \<open>draw\<close> is the 16 bytes that \<open>rand.Read\<close> leaves
  in the array, with the error it returns. The library is not part of the repository;
  the definitions follow its source.
\<close>

datatype rand_error = ReadError

type_synonym UUID = bytes

type_synonym draw = "bytes \<times> rand_error option"

definition ReservedNCS :: nat where
  "ReservedNCS = 0x80"

definition ReservedRFC4122 :: nat where
  "ReservedRFC4122 = 0x40"

definition ReservedMicrosoft :: nat where
  "ReservedMicrosoft = 0x20"

text \<open>\<open>u.setVariant(v)\<close>: a switch over the three variants it knows, on byte 8.\<close>

definition setVariant :: "nat \<Rightarrow> UUID \<Rightarrow> UUID" where
  "setVariant v u =
     (if v = ReservedNCS
      then u[8 := char_of (((of_char (u ! 8) :: nat) OR ReservedNCS) AND 0xBF)]
      else if v = ReservedRFC4122
      then u[8 := char_of (((of_char (u ! 8) :: nat) OR ReservedRFC4122) AND 0x7F)]
      else if v = ReservedMicrosoft
      then u[8 := char_of (((of_char (u ! 8) :: nat) OR ReservedMicrosoft) AND 0x3F)]
      else u)"

text \<open>\<open>u.setVersion(v)\<close>: \<open>u[6] = (u[6] & 0xF) | (v << 4)\<close>, the shift within a byte.\<close>

definition setVersion :: "nat \<Rightarrow> UUID \<Rightarrow> UUID" where
  "setVersion v u = u[6 := char_of (((of_char (u ! 6) :: nat) AND 0xF) OR (v * 16) mod 256)]"

definition uuid_NewV4 :: "draw \<Rightarrow> UUID \<times> rand_error option" where
  "uuid_NewV4 d =
     (case d of (u, err) \<Rightarrow>
        if err \<noteq> None then (u, err)
        else (setVersion 4 (setVariant ReservedRFC4122 u), None))"

text \<open>
  \<open>u.String()\<close> is \<open>fmt.Sprintf("%x-%x-%x-%x-%x", u[0:4], u[4:6], u[6:8], u[8:10], u[10:])\<close>.
\<close>

definition uuid_String :: "UUID \<Rightarrow> string" where
  "uuid_String u =
     hex_string (take 4 u) @ ''-'' @ hex_string (take 2 (drop 4 u)) @ ''-''
     @ hex_string (take 2 (drop 6 u)) @ ''-'' @ hex_string (take 2 (drop 8 u)) @ ''-''
     @ hex_string (drop 10 u)"

section \<open>NewMsg\<close>

text \<open>
  \<open>d\<close> is the draw of the one call of \<open>uuid.NewV4()\<close>; the error that call returns is
  dropped.
\<close>

definition NewMsg :: "string \<Rightarrow> 'v ComposedMsg \<Rightarrow> draw \<Rightarrow> 'v ComposedMsg" where
  "NewMsg msg_type parent d =
     (let msg = zero_ComposedMsg;
          msg = msg\<lparr>Parent_header := Header parent\<rparr>;
          msg = msg\<lparr>Header := (Header msg)\<lparr>Session := Session (Header parent)\<rparr>\<rparr>;
          msg = msg\<lparr>Header := (Header msg)\<lparr>Username := Username (Header parent)\<rparr>\<rparr>;
          msg = msg\<lparr>Header := (Header msg)\<lparr>Msg_type := msg_type\<rparr>\<rparr>;
          u = fst (uuid_NewV4 d);
          msg = msg\<lparr>Header := (Header msg)\<lparr>Msg_id := uuid_String u\<rparr>\<rparr>
      in msg)"

section \<open>A model of encoding/json\<close>

text \<open>
  The library at the dynamic values that \<open>Unmarshal\<close> itself produces: nil, bool,
  float64, string, \<open>[]interface{}\<close> and \<open>map[string]interface{}\<close>. A float64 is
  kept as the number literal that denotes it, and a nested map as the list of its
  entries in the order of the text. It instantiates the parameter of the model wherever
  a theorem is stated at a concrete input.
\<close>

datatype jv = JBool bool | JNumber string | JString string
  | JArray "jv option list" | JObject "(string \<times> jv option) list"

definition hexdigit :: "nat \<Rightarrow> char" where
  "hexdigit n = ''0123456789abcdef'' ! n"

text \<open>
  The length of the UTF-8 sequence that starts a string, 0 when its first bytes are not
  a valid encoding (\<open>utf8.DecodeRune\<close> then gives the replacement character, width 1).
\<close>

definition cont :: "nat \<Rightarrow> nat \<Rightarrow> char \<Rightarrow> bool" where
  "cont lo hi c = (lo \<le> of_char c \<and> (of_char c :: nat) \<le> hi)"

fun utf8_len :: "string \<Rightarrow> nat" where
  "utf8_len [] = 0"
| "utf8_len (c # cs) =
     (let n = (of_char c :: nat) in
      if n < 0x80 then 1
      else if 0xC2 \<le> n \<and> n \<le> 0xDF then
        (case cs of c1 # _ \<Rightarrow> if cont 0x80 0xBF c1 then 2 else 0 | _ \<Rightarrow> 0)
      else if 0xE0 \<le> n \<and> n \<le> 0xEF then
        (case cs of c1 # c2 # _ \<Rightarrow>
           if cont (if n = 0xE0 then 0xA0 else 0x80) (if n = 0xED then 0x9F else 0xBF) c1
              \<and> cont 0x80 0xBF c2 then 3 else 0
         | _ \<Rightarrow> 0)
      else if 0xF0 \<le> n \<and> n \<le> 0xF4 then
        (case cs of c1 # c2 # c3 # _ \<Rightarrow>
           if cont (if n = 0xF0 then 0x90 else 0x80) (if n = 0xF4 then 0x8F else 0xBF) c1
              \<and> cont 0x80 0xBF c2 \<and> cont 0x80 0xBF c3 then 4 else 0
         | _ \<Rightarrow> 0)
      else 0)"

text \<open>The UTF-8 encoding of a code point (\<open>utf8.EncodeRune\<close>).\<close>

definition utf8_encode :: "nat \<Rightarrow> string" where
  "utf8_encode r =
     (if r < 0x80 then [char_of r]
      else if r < 0x800 then [char_of (0xC0 + r div 64), char_of (0x80 + r mod 64)]
      else if r < 0x10000 then
        [char_of (0xE0 + r div 4096), char_of (0x80 + r div 64 mod 64), char_of (0x80 + r mod 64)]
      else
        [char_of (0xF0 + r div 262144), char_of (0x80 + r div 4096 mod 64),
         char_of (0x80 + r div 64 mod 64), char_of (0x80 + r mod 64)])"

definition replacement :: string where
  "replacement = utf8_encode 0xFFFD"

text \<open>The body of a JSON string literal for a Go string, as the encoder writes it.\<close>

function quote_bytes :: "string \<Rightarrow> string" where
  "quote_bytes [] = []"
| "quote_bytes (c # cs) =
     (if (of_char c :: nat) < 0x80 then
        (if c = CHR 0x22 then [CHR 0x5C, CHR 0x22]
         else if c = CHR 0x5C then [CHR 0x5C, CHR 0x5C]
         else if c = CHR 0x0A then [CHR 0x5C, CHR ''n'']
         else if c = CHR 0x0D then [CHR 0x5C, CHR ''r'']
         else if c = CHR 0x09 then [CHR 0x5C, CHR ''t'']
         else if (of_char c :: nat) < 0x20 \<or> c = CHR ''<'' \<or> c = CHR ''>'' \<or> c = CHR ''&''
         then [CHR 0x5C, CHR ''u'', CHR ''0'', CHR ''0'',
               hexdigit (of_char c div 16), hexdigit (of_char c mod 16)]
         else [c]) @ quote_bytes cs
      else if utf8_len (c # cs) = 0 then CHR 0x5C # ''ufffd'' @ quote_bytes cs
      else if take 3 (c # cs) = [CHR 0xE2, CHR 0x80, CHR 0xA8] then
        CHR 0x5C # ''u2028'' @ quote_bytes (drop 2 cs)
      else if take 3 (c # cs) = [CHR 0xE2, CHR 0x80, CHR 0xA9] then
        CHR 0x5C # ''u2029'' @ quote_bytes (drop 2 cs)
      else take (utf8_len (c # cs)) (c # cs) @ quote_bytes (drop (utf8_len (c # cs) - 1) cs))"
  by pat_completeness auto
termination
  by (relation "measure length") auto

definition quote :: "string \<Rightarrow> string" where
  "quote s = CHR 0x22 # quote_bytes s @ [CHR 0x22]"

fun commas :: "string list \<Rightarrow> string" where
  "commas [] = []"
| "commas [x] = x"
| "commas (x # y # ys) = x @ CHR '','' # commas (y # ys)"

fun print :: "jv option \<Rightarrow> string" where
  "print None = ''null''"
| "print (Some (JBool b)) = (if b then ''true'' else ''false'')"
| "print (Some (JNumber n)) = n"
| "print (Some (JString s)) = quote s"
| "print (Some (JArray xs)) = CHR ''['' # commas (map print xs) @ '']''"
| "print (Some (JObject kvs)) =
     CHR ''{'' # commas (map (\<lambda>(k, v). quote k @ CHR '':'' # print v) kvs) @ ''}''"

subsection \<open>Reading JSON\<close>

definition is_ws :: "char \<Rightarrow> bool" where
  "is_ws c = (c = CHR '' '' \<or> c = CHR 0x09 \<or> c = CHR 0x0A \<or> c = CHR 0x0D)"

definition skip_ws :: "string \<Rightarrow> string" where
  "skip_ws s = dropWhile is_ws s"

definition is_digit :: "char \<Rightarrow> bool" where
  "is_digit c = (48 \<le> (of_char c :: nat) \<and> (of_char c :: nat) \<le> 57)"

definition hexval :: "char \<Rightarrow> nat option" where
  "hexval c =
     (let n = (of_char c :: nat) in
      if 48 \<le> n \<and> n \<le> 57 then Some (n - 48)
      else if 97 \<le> n \<and> n \<le> 102 then Some (n - 87)
      else if 65 \<le> n \<and> n \<le> 70 then Some (n - 55)
      else None)"

text \<open>\<open>getu4\<close>: the code unit of a \<open>u\<close> escape, given the text from the backslash on.\<close>

fun getu4 :: "string \<Rightarrow> nat option" where
  "getu4 (b # u # h1 # h2 # h3 # h4 # _) =
     (if b = CHR 0x5C \<and> u = CHR ''u'' then
        (case (hexval h1, hexval h2, hexval h3, hexval h4) of
           (Some a, Some b, Some c, Some d) \<Rightarrow> Some (((a * 16 + b) * 16 + c) * 16 + d)
         | _ \<Rightarrow> None)
      else None)"
| "getu4 _ = None"

definition unescape :: "char \<Rightarrow> char option" where
  "unescape e =
     (if e = CHR 0x22 \<or> e = CHR 0x5C \<or> e = CHR ''/'' then Some e
      else if e = CHR ''b'' then Some (CHR 0x08)
      else if e = CHR ''f'' then Some (CHR 0x0C)
      else if e = CHR ''n'' then Some (CHR 0x0A)
      else if e = CHR ''r'' then Some (CHR 0x0D)
      else if e = CHR ''t'' then Some (CHR 0x09)
      else None)"

definition prepend :: "string \<Rightarrow> (string \<times> string) option \<Rightarrow> (string \<times> string) option" where
  "prepend p r = map_option (\<lambda>(s, rest). (p @ s, rest)) r"

text \<open>
  A string literal after its opening quote: the Go string it denotes and the text after
  the closing quote. Fuel bounds the number of steps; the length of the text is enough.
\<close>

fun read_string :: "nat \<Rightarrow> string \<Rightarrow> (string \<times> string) option" where
  "read_string 0 s = None"
| "read_string (Suc n) [] = None"
| "read_string (Suc n) (c # cs) =
     (if c = CHR 0x22 then Some ([], cs)
      else if c = CHR 0x5C then
        (case cs of
           [] \<Rightarrow> None
         | e # es \<Rightarrow>
            if e = CHR ''u'' then
              (case getu4 (c # cs) of
                 None \<Rightarrow> None
               | Some r \<Rightarrow>
                  if 0xD800 \<le> r \<and> r < 0xE000 then
                    (case getu4 (drop 4 es) of
                       Some r2 \<Rightarrow>
                         if r < 0xDC00 \<and> 0xDC00 \<le> r2 \<and> r2 < 0xE000
                         then prepend (utf8_encode ((r - 0xD800) * 1024 + (r2 - 0xDC00) + 0x10000))
                                (read_string n (drop 10 es))
                         else prepend replacement (read_string n (drop 4 es))
                     | None \<Rightarrow> prepend replacement (read_string n (drop 4 es)))
                  else prepend (utf8_encode r) (read_string n (drop 4 es)))
            else (case unescape e of
                    None \<Rightarrow> None
                  | Some b \<Rightarrow> prepend [b] (read_string n es)))
      else if (of_char c :: nat) < 0x20 then None
      else if (of_char c :: nat) < 0x80 then prepend [c] (read_string n cs)
      else if utf8_len (c # cs) = 0 then prepend replacement (read_string n cs)
      else prepend (take (utf8_len (c # cs)) (c # cs))
             (read_string n (drop (utf8_len (c # cs) - 1) cs)))"

text \<open>A number literal at the start of a text: the literal and the text after it.\<close>

definition read_digits :: "string \<Rightarrow> (string \<times> string) option" where
  "read_digits s = (if takeWhile is_digit s = [] then None
                    else Some (takeWhile is_digit s, dropWhile is_digit s))"

definition read_int :: "string \<Rightarrow> (string \<times> string) option" where
  "read_int s =
     (case s of
        [] \<Rightarrow> None
      | c # cs \<Rightarrow> if c = CHR ''0'' then Some ([c], cs) else read_digits s)"

definition read_frac :: "string \<Rightarrow> (string \<times> string) option" where
  "read_frac s =
     (case s of
        c # cs \<Rightarrow> if c = CHR ''.'' then prepend [c] (read_digits cs) else Some ([], s)
      | [] \<Rightarrow> Some ([], s))"

definition read_exp :: "string \<Rightarrow> (string \<times> string) option" where
  "read_exp s =
     (case s of
        c # cs \<Rightarrow>
          if c = CHR ''e'' \<or> c = CHR ''E'' then
            (case cs of
               d # ds \<Rightarrow> if d = CHR ''+'' \<or> d = CHR ''-'' then prepend [c, d] (read_digits ds)
                          else prepend [c] (read_digits cs)
             | [] \<Rightarrow> None)
          else Some ([], s)
      | [] \<Rightarrow> Some ([], s))"

definition read_sign :: "string \<Rightarrow> string \<times> string" where
  "read_sign s = (case s of c # cs \<Rightarrow> if c = CHR ''-'' then ([c], cs) else ([], s) | [] \<Rightarrow> ([], s))"

definition read_number :: "string \<Rightarrow> (string \<times> string) option" where
  "read_number s =
     (case read_int (snd (read_sign s)) of
        None \<Rightarrow> None
      | Some (i, s2) \<Rightarrow>
         (case read_frac s2 of
            None \<Rightarrow> None
          | Some (f, s3) \<Rightarrow> prepend (fst (read_sign s) @ i @ f) (read_exp s3)))"

definition expect :: "string \<Rightarrow> string \<Rightarrow> string option" where
  "expect lit s = (if take (length lit) s = lit then Some (drop (length lit) s) else None)"

text \<open>
  A JSON value at the start of a text (after white space), the elements of an array
  after its opening bracket, and the members of an object after its opening brace.
\<close>

fun read_value :: "nat \<Rightarrow> string \<Rightarrow> (jv option \<times> string) option"
  and read_elems :: "nat \<Rightarrow> string \<Rightarrow> (jv option list \<times> string) option"
  and read_members :: "nat \<Rightarrow> string \<Rightarrow> ((string \<times> jv option) list \<times> string) option" where
  "read_value 0 s = None"
| "read_value (Suc n) s =
     (case skip_ws s of
        [] \<Rightarrow> None
      | c # cs \<Rightarrow>
         if c = CHR ''n'' then map_option (Pair None) (expect ''ull'' cs)
         else if c = CHR ''t'' then map_option (Pair (Some (JBool True))) (expect ''rue'' cs)
         else if c = CHR ''f'' then map_option (Pair (Some (JBool False))) (expect ''alse'' cs)
         else if c = CHR 0x22 then
           map_option (\<lambda>(str, rest). (Some (JString str), rest)) (read_string (length cs) cs)
         else if c = CHR ''['' then
           (case skip_ws cs of
              [] \<Rightarrow> None
            | d # ds \<Rightarrow> if d = CHR '']'' then Some (Some (JArray []), ds)
                        else map_option (\<lambda>(xs, rest). (Some (JArray xs), rest)) (read_elems n cs))
         else if c = CHR ''{'' then
           (case skip_ws cs of
              [] \<Rightarrow> None
            | d # ds \<Rightarrow> if d = CHR ''}'' then Some (Some (JObject []), ds)
                        else map_option (\<lambda>(kvs, rest). (Some (JObject kvs), rest)) (read_members n cs))
         else map_option (\<lambda>(lit, rest). (Some (JNumber lit), rest)) (read_number (c # cs)))"
| "read_elems 0 s = None"
| "read_elems (Suc n) s =
     (case read_value n s of
        None \<Rightarrow> None
      | Some (v, rest) \<Rightarrow>
         (case skip_ws rest of
            [] \<Rightarrow> None
          | d # ds \<Rightarrow>
             if d = CHR '']'' then Some ([v], ds)
             else if d = CHR '','' then map_option (\<lambda>(vs, r). (v # vs, r)) (read_elems n ds)
             else None))"
| "read_members 0 s = None"
| "read_members (Suc n) s =
     (case skip_ws s of
        [] \<Rightarrow> None
      | q # qs \<Rightarrow>
         if q \<noteq> CHR 0x22 then None
         else
           (case read_string (length qs) qs of
              None \<Rightarrow> None
            | Some (k, r1) \<Rightarrow>
               (case skip_ws r1 of
                  [] \<Rightarrow> None
                | col # r2 \<Rightarrow>
                   if col \<noteq> CHR '':'' then None
                   else
                     (case read_value n r2 of
                        None \<Rightarrow> None
                      | Some (v, r3) \<Rightarrow>
                         (case skip_ws r3 of
                            [] \<Rightarrow> None
                          | d # ds \<Rightarrow>
                             if d = CHR ''}'' then Some ([(k, v)], ds)
                             else if d = CHR '','' then
                               map_option (\<lambda>(kvs, r). ((k, v) # kvs, r)) (read_members n ds)
                             else None)))))"

text \<open>A whole text is one value between white space; anything else is a syntax error.\<close>

definition read_json :: "string \<Rightarrow> jv option option" where
  "read_json s =
     (case read_value (Suc (length s)) s of
        None \<Rightarrow> None
      | Some (v, rest) \<Rightarrow> if skip_ws rest = [] then Some v else None)"

subsection \<open>Unmarshal and Marshal at the three types\<close>

text \<open>
  A key names a field when it equals the field's name under Unicode case folding. The
  names are ASCII: besides the ASCII letters, only the long s (U+017F) folds to \<open>s\<close>
  and the Kelvin sign (U+212A) to \<open>k\<close>.
\<close>

function fold_name :: "string \<Rightarrow> string" where
  "fold_name [] = []"
| "fold_name (c # cs) =
     (if 65 \<le> (of_char c :: nat) \<and> (of_char c :: nat) \<le> 90
      then char_of ((of_char c :: nat) + 32) # fold_name cs
      else if take 2 (c # cs) = [CHR 0xC5, CHR 0xBF] then CHR ''s'' # fold_name (drop 1 cs)
      else if take 3 (c # cs) = [CHR 0xE2, CHR 0x84, CHR 0xAA] then CHR ''k'' # fold_name (drop 2 cs)
      else c # fold_name cs)"
  by pat_completeness auto
termination
  by (relation "measure length") auto

definition set_field :: "string \<Rightarrow> string \<Rightarrow> MsgHeader \<Rightarrow> MsgHeader option" where
  "set_field key v h =
     (if fold_name key = ''msg_id'' then Some (h\<lparr>Msg_id := v\<rparr>)
      else if fold_name key = ''username'' then Some (h\<lparr>Username := v\<rparr>)
      else if fold_name key = ''session'' then Some (h\<lparr>Session := v\<rparr>)
      else if fold_name key = ''msg_type'' then Some (h\<lparr>Msg_type := v\<rparr>)
      else None)"

text \<open>
  One member of an object read into the struct: an unknown key is skipped, null leaves
  the field as it is, a value that is not a string is a type error (the first error is
  kept and decoding goes on).
\<close>

definition read_member ::
  "MsgHeader \<times> json_error option \<Rightarrow> string \<times> jv option \<Rightarrow> MsgHeader \<times> json_error option" where
  "read_member st kv =
     (case snd kv of
        None \<Rightarrow> st
      | Some (JString v) \<Rightarrow>
         (case set_field (fst kv) v (fst st) of None \<Rightarrow> st | Some h \<Rightarrow> (h, snd st))
      | Some _ \<Rightarrow>
         (case set_field (fst kv) [] (fst st) of
            None \<Rightarrow> st
          | Some _ \<Rightarrow> (fst st, if snd st = None then Some UnmarshalTypeError else snd st)))"

definition json_Unmarshal_MsgHeader :: "bytes \<Rightarrow> MsgHeader \<Rightarrow> MsgHeader \<times> json_error option" where
  "json_Unmarshal_MsgHeader data h =
     (case read_json data of
        None \<Rightarrow> (h, Some SyntaxError)
      | Some None \<Rightarrow> (h, None)
      | Some (Some (JObject kvs)) \<Rightarrow> foldl read_member (h, None) kvs
      | Some (Some _) \<Rightarrow> (h, Some UnmarshalTypeError))"

definition json_Unmarshal_map :: "bytes \<Rightarrow> jv gomap \<Rightarrow> jv gomap \<times> json_error option" where
  "json_Unmarshal_map data m =
     (case read_json data of
        None \<Rightarrow> (m, Some SyntaxError)
      | Some None \<Rightarrow> (None, None)
      | Some (Some (JObject kvs)) \<Rightarrow>
         (Some (foldl (\<lambda>f kv. f(fst kv \<mapsto> snd kv)) (case m of None \<Rightarrow> Map.empty | Some f \<Rightarrow> f) kvs),
          None)
      | Some (Some _) \<Rightarrow> (m, Some UnmarshalTypeError))"

definition json_Unmarshal_iface :: "bytes \<Rightarrow> jv iface \<Rightarrow> jv iface \<times> json_error option" where
  "json_Unmarshal_iface data v =
     (case read_json data of None \<Rightarrow> (v, Some SyntaxError) | Some x \<Rightarrow> (x, None))"

definition json_Marshal_MsgHeader :: "MsgHeader \<Rightarrow> bytes \<times> json_error option" where
  "json_Marshal_MsgHeader h =
     (CHR ''{'' # quote ''msg_id'' @ CHR '':'' # quote (Msg_id h) @ CHR '','' #
      quote ''username'' @ CHR '':'' # quote (Username h) @ CHR '','' #
      quote ''session'' @ CHR '':'' # quote (Session h) @ CHR '','' #
      quote ''msg_type'' @ CHR '':'' # quote (Msg_type h) @ ''}'', None)"

definition json_Marshal_map :: "jv gomap \<Rightarrow> bytes \<times> json_error option" where
  "json_Marshal_map m =
     (case m of
        None \<Rightarrow> (''null'', None)
      | Some f \<Rightarrow>
         (print (Some (JObject (map (\<lambda>k. (k, the (f k))) (sorted_list_of_set (dom f))))), None))"

definition json_Marshal_iface :: "jv iface \<Rightarrow> bytes \<times> json_error option" where
  "json_Marshal_iface v = (print v, None)"

definition go_json :: "jv encoding_json" where
  "go_json =
     \<lparr>Marshal_MsgHeader = json_Marshal_MsgHeader,
      Marshal_map = json_Marshal_map,
      Marshal_iface = json_Marshal_iface,
      Unmarshal_MsgHeader = json_Unmarshal_MsgHeader,
      Unmarshal_map = json_Unmarshal_map,
      Unmarshal_iface = json_Unmarshal_iface\<rparr>"

section \<open>SendResponse\<close>

text \<open>
  The multipart message that \<open>SendResponse\<close> writes to the socket: the identities, the
  delimiter and the frames of \<open>ToWireMsg\<close>. The two log lines are left out.
\<close>

record 'v MsgReceipt =
  Msg :: "'v ComposedMsg"
  Identities :: "bytes list"
  Sockets_Key :: bytes

definition SendResponse ::
  "'v encoding_json \<Rightarrow> 'v MsgReceipt \<Rightarrow> 'v ComposedMsg \<Rightarrow> bytes list outcome" where
  "SendResponse J receipt msg =
     bind (ToWireMsg J msg (Sockets_Key receipt))
       (\<lambda>frames. Return (Identities receipt @ ''<IDS|MSG>'' # frames))"

section \<open>ToWireMsg on a store\<close>

text \<open>
  A Go map is a reference. Here the maps live in a store, a message struct holds the
  address of its metadata map (or nil), and \<open>ToWireMsg\<close>, whose receiver is passed by
  value, works on its own copy \<open>receiver\<close> of the caller's struct \<open>caller\<close>.
  \<open>make\<close> allocates the next address of the store.
\<close>

type_synonym 'v store = "(string \<rightharpoonup> 'v iface) list"

record 'v MsgStruct =
  Header_of :: MsgHeader
  Parent_header_of :: MsgHeader
  Metadata_ref :: "nat option"
  Content_of :: "'v iface"

record 'v machine =
  store :: "'v store"
  caller :: "'v MsgStruct"
  receiver :: "'v MsgStruct"

definition deref :: "'v store \<Rightarrow> nat option \<Rightarrow> 'v gomap" where
  "deref h r = map_option (\<lambda>a. h ! a) r"

definition load :: "'v store \<Rightarrow> 'v MsgStruct \<Rightarrow> 'v ComposedMsg" where
  "load h m =
     \<lparr>Header = Header_of m, Parent_header = Parent_header_of m,
      Metadata = deref h (Metadata_ref m), Content = Content_of m\<rparr>"

definition ToWireMsg_on ::
  "'v encoding_json \<Rightarrow> 'v machine \<Rightarrow> bytes \<Rightarrow> 'v machine \<times> bytes list outcome" where
  "ToWireMsg_on J s0 signkey =
     (let s = s0\<lparr>receiver := caller s0\<rparr>;
          msgparts = replicate 5 [];
          msgparts = msgparts[1 := fst (Marshal_MsgHeader J (Header_of (receiver s)))];
          msgparts = msgparts[2 := fst (Marshal_MsgHeader J (Parent_header_of (receiver s)))];
          s = (if Metadata_ref (receiver s) = None
               then s\<lparr>store := store s @ [Map.empty],
                      receiver := (receiver s)\<lparr>Metadata_ref := Some (length (store s))\<rparr>\<rparr>
               else s);
          msgparts = msgparts[3 := fst (Marshal_map J (deref (store s) (Metadata_ref (receiver s))))];
          msgparts = msgparts[4 := fst (Marshal_iface J (Content_of (receiver s)))]
      in (s, if length signkey \<noteq> 0
             then bind (hex_Encode (make_bytes (hex_EncodedLen hmac_Size))
                          (hmac_Sum (foldl hmac_Write (hmac_New signkey) (drop 1 msgparts))))
                    (\<lambda>sig. Return (msgparts[0 := sig]))
             else Return msgparts))"

section \<open>Notions for the statements\<close>

text \<open>
  The four fields as the last four calls of \<open>WireMsgToComposedMsg\<close> leave them, for
  the frames \<open>rest\<close> after the delimiter.
\<close>

definition parse_fields ::
  "'v encoding_json \<Rightarrow> bytes list \<Rightarrow> bytes list
     \<Rightarrow> ('v ComposedMsg \<times> bytes list \<times> error option) outcome" where
  "parse_fields J rest ids =
     bind (index rest 1) (\<lambda>p2. bind (index rest 2) (\<lambda>p3.
     bind (index rest 3) (\<lambda>p4. bind (index rest 4) (\<lambda>p5.
     Return
       (\<lparr>Header = fst (Unmarshal_MsgHeader J p2 zero_MsgHeader),
         Parent_header = fst (Unmarshal_MsgHeader J p3 zero_MsgHeader),
         Metadata = fst (Unmarshal_map J p4 None),
         Content = fst (Unmarshal_iface J p5 None)\<rparr>,
        ids, None)))))"

text \<open>The message whose unset metadata mapping has been made an empty one.\<close>

definition with_metadata :: "'v ComposedMsg \<Rightarrow> 'v ComposedMsg" where
  "with_metadata msg = (if Metadata msg = None then msg\<lparr>Metadata := Some Map.empty\<rparr> else msg)"

text \<open>Frame 0 of \<open>ToWireMsg\<close> for the four JSON frames \<open>ps\<close>.\<close>

definition signature_frame :: "bytes \<Rightarrow> bytes list \<Rightarrow> bytes" where
  "signature_frame key ps = (if key = [] then [] else hex_string (hmac_sha256 key (concat ps)))"

text \<open>
  The four values of a message come back from their JSON texts: what the library has
  to do for a message to survive encoding and decoding.
\<close>

definition json_round_trip :: "'v encoding_json \<Rightarrow> 'v ComposedMsg \<Rightarrow> bool" where
  "json_round_trip J msg =
     (fst (Unmarshal_MsgHeader J (fst (Marshal_MsgHeader J (Header msg))) zero_MsgHeader)
        = Header msg
      \<and> fst (Unmarshal_MsgHeader J (fst (Marshal_MsgHeader J (Parent_header msg))) zero_MsgHeader)
        = Parent_header msg
      \<and> fst (Unmarshal_map J (fst (Marshal_map J (Metadata msg))) None) = Metadata msg
      \<and> fst (Unmarshal_iface J (fst (Marshal_iface J (Content msg))) None) = Content msg)"

text \<open>The message of the worked example, and its header.\<close>

definition example_header :: MsgHeader where
  "example_header =
     \<lparr>Msg_id = ''1'', Username = ''u'', Session = ''s'', Msg_type = ''execute_request''\<rparr>"

definition example_msg :: "jv ComposedMsg" where
  "example_msg =
     \<lparr>Header = example_header, Parent_header = zero_MsgHeader, Metadata = Some Map.empty,
      Content = Some (JObject [(''code'', Some (JString ''1+1''))])\<rparr>"

text \<open>A machine whose caller holds a message with a nil metadata mapping.\<close>

definition example_machine :: "jv machine" where
  "example_machine =
     \<lparr>store = [],
      caller = \<lparr>Header_of = example_header, Parent_header_of = zero_MsgHeader,
                Metadata_ref = None, Content_of = None\<rparr>,
      receiver = \<lparr>Header_of = zero_MsgHeader, Parent_header_of = zero_MsgHeader,
                  Metadata_ref = None, Content_of = None\<rparr>\<rparr>"

text \<open>Sixteen bytes from the random source, read without error.\<close>

definition example_draw :: draw where
  "example_draw =
     ([CHR 0x6F, CHR 0xA4, CHR 0x59, CHR 0xEA, CHR 0xEE, CHR 0x8A, CHR 0x3C, CHR 0xA4,
       CHR 0x89, CHR 0x4E, CHR 0xDB, CHR 0x77, CHR 0xE1, CHR 0x60, CHR 0x35, CHR 0x5E], None)"

section \<open>Lemmas\<close>

lemma bind_Panic [simp]: "bind Panic f = Panic"
  by (simp add: bind_def)

lemma bind_Return [simp]: "bind (Return x) f = f x"
  by (simp add: bind_def)

subsection \<open>Hexadecimal text\<close>

lemma hextable_all: "\<forall>k \<in> set [0..<16]. fromHexChar (hextable ! k) = Some k"
  by code_simp

lemma hextable_nth: "k < 16 \<Longrightarrow> fromHexChar (hextable ! k) = Some k"
  using hextable_all by simp

lemma char_of_div_mod: "char_of ((of_char v :: nat) div 16 * 16 + of_char v mod 16) = v"
  by simp

lemma length_hex_string [simp]: "length (hex_string src) = 2 * length src"
  by (induction src) (simp_all add: hex_string_def)

lemma hex_string_Cons:
  "hex_string (v # src) = hextable ! (of_char v div 16) # hextable ! (of_char v mod 16) # hex_string src"
  by (simp add: hex_string_def)

lemma hex_string_Nil [simp]: "hex_string [] = []"
  by (simp add: hex_string_def)

lemma hex_Encode_from_eq:
  "j + 2 * length src \<le> length dst \<Longrightarrow>
   hex_Encode_from dst j src = Return (take j dst @ hex_string src @ drop (j + 2 * length src) dst)"
proof (induction src arbitrary: dst j)
  case Nil
  then show ?case by simp
next
  case (Cons v src)
  let ?a = "hextable ! (of_char v div 16)" and ?b = "hextable ! (of_char v mod 16)"
  let ?dst = "dst[j := ?a, j + 1 := ?b]"
  from Cons.prems have j: "j + 1 < length dst" by simp
  have "hex_Encode_from ?dst (j + 2) src
      = Return (take (j + 2) ?dst @ hex_string src @ drop (j + 2 + 2 * length src) ?dst)"
    using Cons.prems by (intro Cons.IH) simp
  moreover have "take (j + 2) ?dst = take j dst @ [?a, ?b]"
    using j by (simp add: list_eq_iff_nth_eq nth_append nth_list_update)
  moreover have "drop (j + 2 + 2 * length src) ?dst = drop (j + 2 * length (v # src)) dst"
    by simp
  ultimately show ?case using j by (simp add: hex_string_Cons)
qed

lemma hex_Decode_from_eq:
  "i + length src \<le> length dst \<Longrightarrow>
   hex_Decode_from dst i (hex_string src)
     = Return (take i dst @ src @ drop (i + length src) dst, i + length src, None)"
proof (induction src arbitrary: dst i)
  case Nil
  then show ?case by simp
next
  case (Cons v src)
  have lt: "(of_char v :: nat) div 16 < 16" "(of_char v :: nat) mod 16 < 16"
    by (simp_all add: less_mult_imp_div_less)
  from Cons.prems have i: "i < length dst" by simp
  have "hex_Decode_from (dst[i := v]) (i + 1) (hex_string src)
      = Return (take (i + 1) (dst[i := v]) @ src @ drop (i + 1 + length src) (dst[i := v]),
                i + 1 + length src, None)"
    using Cons.prems by (intro Cons.IH) simp
  moreover have "take (i + 1) (dst[i := v]) = take i dst @ [v]"
    using i by (simp add: take_Suc_conv_app_nth)
  ultimately show ?case
    using i by (simp add: hex_string_Cons hextable_nth lt)
qed

subsection \<open>The scan for the delimiter and the frames after it\<close>

lemma scan_delimiter_Panic:
  "''<IDS|MSG>'' \<notin> set (drop i msgparts) \<Longrightarrow> scan_delimiter msgparts i = Panic"
proof (induction msgparts i rule: scan_delimiter.induct)
  case (1 msgparts i)
  show ?case
  proof (cases "i < length msgparts")
    case False
    then show ?thesis by (simp add: scan_delimiter.simps [of msgparts i])
  next
    case True
    then have here: "msgparts ! i \<in> set (drop i msgparts)"
      by (metis Cons_nth_drop_Suc list.set_intros(1))
    with "1.prems" have ne: "msgparts ! i \<noteq> ''<IDS|MSG>''" by auto
    have "set (drop (i + 1) msgparts) \<subseteq> set (drop i msgparts)"
      by (simp add: set_drop_subset_set_drop)
    with "1.prems" have "''<IDS|MSG>'' \<notin> set (drop (i + 1) msgparts)" by auto
    with "1.IH" True ne have "scan_delimiter msgparts (i + 1) = Panic" by simp
    with True ne show ?thesis by (simp add: scan_delimiter.simps [of msgparts i])
  qed
qed

lemma scan_delimiter_skip:
  "''<IDS|MSG>'' \<notin> set (drop i ids) \<Longrightarrow> i \<le> length ids \<Longrightarrow>
   scan_delimiter (ids @ ''<IDS|MSG>'' # rest) i = Return (length ids)"
proof (induction "length ids - i" arbitrary: i)
  case 0
  then have "i = length ids" by simp
  then show ?case by (simp add: scan_delimiter.simps [of _ "length ids"])
next
  case (Suc k)
  then have lt: "i < length ids" by simp
  then have here: "ids ! i \<in> set (drop i ids)"
    by (metis Cons_nth_drop_Suc list.set_intros(1))
  with Suc.prems have ne: "ids ! i \<noteq> ''<IDS|MSG>''" by auto
  have "set (drop (Suc i) ids) \<subseteq> set (drop i ids)"
    by (simp add: set_drop_subset_set_drop)
  with Suc.prems have "''<IDS|MSG>'' \<notin> set (drop (Suc i) ids)" by auto
  moreover have "k = length ids - Suc i" using Suc.hyps(2) by simp
  ultimately have "scan_delimiter (ids @ ''<IDS|MSG>'' # rest) (Suc i) = Return (length ids)"
    using Suc.hyps(1) lt by simp
  with lt ne show ?case
    by (simp add: scan_delimiter.simps [of _ i] nth_append)
qed

lemma scan_delimiter_found:
  "''<IDS|MSG>'' \<notin> set ids \<Longrightarrow> scan_delimiter (ids @ ''<IDS|MSG>'' # rest) 0 = Return (length ids)"
  by (rule scan_delimiter_skip) simp_all

lemma index_after_delimiter:
  "index (ids @ d # rest) (length ids + 1) = index rest 0"
  "index (ids @ d # rest) (length ids + 2) = index rest 1"
  "index (ids @ d # rest) (length ids + 3) = index rest 2"
  "index (ids @ d # rest) (length ids + 4) = index rest 3"
  "index (ids @ d # rest) (length ids + 5) = index rest 4"
  by (simp_all add: index_def nth_append)

lemma slice_after_delimiter:
  "slice (ids @ d # rest) spare (length ids + 2) (length ids + 6) = slice rest spare 1 5"
  by (simp add: slice_def)

lemma decode_unsigned:
  assumes "''<IDS|MSG>'' \<notin> set ids"
  shows "WireMsgToComposedMsg J (ids @ ''<IDS|MSG>'' # rest) spare [] = parse_fields J rest ids"
  unfolding WireMsgToComposedMsg_def parse_fields_def
  by (simp only: scan_delimiter_found [OF assms] bind_Return index_after_delimiter
      list.size if_False if_True not_True_eq_False simp_thms append_eq_conv_conj take_all
      append_take_drop_id take0 order_refl)
     simp

lemma decode_signed:
  assumes "''<IDS|MSG>'' \<notin> set ids" and "signkey \<noteq> []"
  shows "WireMsgToComposedMsg J (ids @ ''<IDS|MSG>'' # rest) spare signkey =
     bind (slice rest spare 1 5) (\<lambda>signed.
     bind (index rest 0) (\<lambda>sigtext.
     bind (hex_Decode (make_bytes (hex_DecodedLen (length sigtext))) sigtext)
       (\<lambda>(signature, n, err).
     if \<not> hmac_Equal (hmac_Sum (foldl hmac_Write (hmac_New signkey) signed)) signature
     then Return (zero_ComposedMsg, [], Some InvalidSignatureError)
     else parse_fields J rest ids)))"
proof -
  have k: "(length signkey \<noteq> 0) = True" using assms(2) by simp
  show ?thesis
    unfolding WireMsgToComposedMsg_def parse_fields_def
    apply (simp only: scan_delimiter_found [OF assms(1)] bind_Return index_after_delimiter
        slice_after_delimiter k if_True)
    apply (cases "slice rest spare 1 5"; simp only: bind_Panic bind_Return)
    apply (cases "index rest 0"; simp only: bind_Panic bind_Return)
    subgoal for signed sigtext
      apply (cases "hex_Decode (make_bytes (hex_DecodedLen (length sigtext))) sigtext";
          simp only: bind_Panic bind_Return)
      apply (auto split: prod.splits)
      done
    done
qed


subsection \<open>The length of a MAC\<close>

lemma length_be_bytes [simp]: "length (be_bytes n v) = n"
  by (simp add: be_bytes_def)

lemma length_round256 [simp]: "length (round256 s kw) = 8"
  by (simp add: round256_def step256_def)

lemma length_foldl_round256: "length s = 8 \<Longrightarrow> length (foldl round256 s kws) = 8"
  by (induction kws arbitrary: s) simp_all

lemma length_compress: "length h = 8 \<Longrightarrow> length (compress h w) = 8"
  by (simp add: compress_def length_foldl_round256)

lemma length_foldl_compress:
  "length h = 8 \<Longrightarrow> length (foldl (\<lambda>h b. compress h (f b)) h bs) = 8"
  by (induction bs arbitrary: h) (simp_all add: length_compress)

lemma length_concat_be_bytes: "length (concat (map (\<lambda>x. be_bytes 4 (g x)) xs)) = 4 * length xs"
  by (induction xs) simp_all

lemma length_sha256 [simp]: "length (sha256 m) = 32"
  by (simp add: sha256_def length_concat_be_bytes length_foldl_compress H256_def)

lemma length_hmac_sha256 [simp]: "length (hmac_sha256 key m) = 32"
  by (simp add: hmac_sha256_def)

subsection \<open>The frames of ToWireMsg\<close>

lemma hmac_written_foldl:
  "foldl hmac_Write mac ps = mac\<lparr>hmac_written := hmac_written mac @ concat ps\<rparr>"
  by (induction ps arbitrary: mac) (simp_all add: hmac_Write_def)

lemma hmac_Sum_foldl:
  "hmac_Sum (foldl hmac_Write (hmac_New key) ps) = hmac_sha256 key (concat ps)"
  by (simp add: hmac_written_foldl hmac_Sum_def hmac_New_def)

lemma hex_Encode_mac:
  "hex_Encode (make_bytes (hex_EncodedLen hmac_Size)) (hmac_sha256 key m)
     = Return (hex_string (hmac_sha256 key m))"
  by (simp add: hex_Encode_def hex_Encode_from_eq make_bytes_def hex_EncodedLen_def hmac_Size_def)

lemma hex_Decode_hex_string:
  "hex_Decode (make_bytes (hex_DecodedLen (length (hex_string src)))) (hex_string src)
     = Return (src, length src, None)"
  by (simp add: hex_Decode_def hex_Decode_from_eq make_bytes_def hex_DecodedLen_def)

lemma ToWireMsg_frames:
  "ToWireMsg J msg key =
     Return [signature_frame key
               [fst (Marshal_MsgHeader J (Header msg)),
                fst (Marshal_MsgHeader J (Parent_header msg)),
                fst (Marshal_map J (Metadata (with_metadata msg))),
                fst (Marshal_iface J (Content msg))],
             fst (Marshal_MsgHeader J (Header msg)),
             fst (Marshal_MsgHeader J (Parent_header msg)),
             fst (Marshal_map J (Metadata (with_metadata msg))),
             fst (Marshal_iface J (Content msg))]"
  by (simp add: ToWireMsg_def Let_def hmac_Sum_def hmac_Write_def hmac_New_def hex_Encode_mac
      with_metadata_def signature_frame_def numeral_eq_Suc)

subsection \<open>An envelope with five frames after the delimiter\<close>

lemma slice_five:
  "slice (sig # h # p # m # c # extra) spare 1 5 = Return [h, p, m, c]"
  "slice (sig # h # p # m # c # extra) spare (Suc 0) 5 = Return [h, p, m, c]"
  by (simp_all add: slice_def numeral_eq_Suc)

lemma parse_fields_five:
  "parse_fields J (sig # h # p # m # c # extra) ids =
     Return
       (\<lparr>Header = fst (Unmarshal_MsgHeader J h zero_MsgHeader),
         Parent_header = fst (Unmarshal_MsgHeader J p zero_MsgHeader),
         Metadata = fst (Unmarshal_map J m None),
         Content = fst (Unmarshal_iface J c None)\<rparr>,
        ids, None)"
  by (simp add: parse_fields_def index_def numeral_eq_Suc)

lemma decode_signed_five:
  assumes "''<IDS|MSG>'' \<notin> set ids" and "signkey \<noteq> []"
    and "hex_Decode (make_bytes (hex_DecodedLen (length sig))) sig = Return (signature, n, err)"
  shows "WireMsgToComposedMsg J (ids @ ''<IDS|MSG>'' # sig # h # p # m # c # extra) spare signkey =
     (if signature \<noteq> hmac_sha256 signkey (h @ p @ m @ c)
      then Return (zero_ComposedMsg, [], Some InvalidSignatureError)
      else parse_fields J (sig # h # p # m # c # extra) ids)"
  using assms
  by (auto simp add: decode_signed slice_five index_def hmac_Sum_foldl hmac_Equal_def)

lemma scan_delimiter_first: "scan_delimiter (''<IDS|MSG>'' # rest) 0 = Return 0"
  by (simp add: scan_delimiter.simps [of _ 0])

subsection \<open>The model of encoding/json at the worked example\<close>

lemma go_json_example: "json_round_trip go_json (with_metadata example_msg)"
  by (simp add: json_round_trip_def with_metadata_def example_msg_def example_header_def
      zero_MsgHeader_def go_json_def
      json_Marshal_MsgHeader_def json_Marshal_map_def json_Marshal_iface_def quote_def
      json_Unmarshal_MsgHeader_def json_Unmarshal_map_def json_Unmarshal_iface_def
      read_json_def skip_ws_def is_ws_def prepend_def read_member_def set_field_def)

lemma json_reads:
  \<open>json_Unmarshal_MsgHeader ''x'' zero_MsgHeader = (zero_MsgHeader, Some SyntaxError)\<close>
  \<open>json_Unmarshal_MsgHeader ''{}'' zero_MsgHeader = (zero_MsgHeader, None)\<close>
  \<open>json_Unmarshal_map ''{}'' None = (Some Map.empty, None)\<close>
  \<open>json_Unmarshal_iface ''null'' None = (None, None)\<close>
  by (simp_all add: json_Unmarshal_MsgHeader_def json_Unmarshal_map_def json_Unmarshal_iface_def
      read_json_def skip_ws_def is_ws_def read_number_def read_sign_def read_int_def
      read_digits_def is_digit_def expect_def)

subsection \<open>ToWireMsg on a store\<close>

lemma ToWireMsg_on_frames:
  assumes "case Metadata_ref (caller s) of None \<Rightarrow> True | Some a \<Rightarrow> a < length (store s)"
  shows "snd (ToWireMsg_on J s signkey) = ToWireMsg J (load (store s) (caller s)) signkey"
  using assms
  by (cases "Metadata_ref (caller s)")
     (simp_all add: ToWireMsg_on_def ToWireMsg_def Let_def load_def deref_def nth_append)

subsection \<open>UUIDs\<close>

lemma hex_string_inj:
  assumes eq: "hex_string a = hex_string b"
  shows "a = b"
proof -
  let ?dst = "make_bytes (length a)"
  have "2 * length a = 2 * length b"
    using arg_cong [OF eq, of length] by (simp only: length_hex_string)
  then have len: "length a = length b" by simp
  have a: "hex_Decode_from ?dst 0 (hex_string a) = Return (a, length a, None)"
    using hex_Decode_from_eq [of 0 a ?dst] by (simp add: make_bytes_def)
  have b: "hex_Decode_from ?dst 0 (hex_string b) = Return (b, length b, None)"
    using hex_Decode_from_eq [of 0 b ?dst] len by (simp add: make_bytes_def)
  have "Return (a, length a, None) = hex_Decode_from ?dst 0 (hex_string a)"
    by (rule a [symmetric])
  also have "\<dots> = hex_Decode_from ?dst 0 (hex_string b)"
    by (simp only: eq)
  also have "\<dots> = Return (b, length b, None)"
    by (rule b)
  finally show ?thesis by simp
qed

lemma uuid_groups:
  "take 4 u @ take 2 (drop 4 u) @ take 2 (drop 6 u) @ take 2 (drop 8 u) @ drop 10 u = u"
proof -
  have "take 4 u @ take 2 (drop 4 u) = take 6 u" using take_add [of 4 2 u] by simp
  moreover have "take 6 u @ take 2 (drop 6 u) = take 8 u" using take_add [of 6 2 u] by simp
  moreover have "take 8 u @ take 2 (drop 8 u) = take 10 u" using take_add [of 8 2 u] by simp
  ultimately have "(((take 4 u @ take 2 (drop 4 u)) @ take 2 (drop 6 u)) @ take 2 (drop 8 u)) @ drop 10 u = u"
    by simp
  then show ?thesis by (simp only: append_assoc)
qed

lemma uuid_group_eq:
  assumes "length a = length a'" "hex_string a @ CHR ''-'' # r = hex_string a' @ CHR ''-'' # r'"
  shows "a = a' \<and> r = r'"
proof -
  have "length (hex_string a) = length (hex_string a')" using assms(1) by simp
  then have "(hex_string a @ CHR ''-'' # r = hex_string a' @ CHR ''-'' # r')
      = (hex_string a = hex_string a' \<and> CHR ''-'' # r = CHR ''-'' # r')"
    by (intro append_eq_append_conv disjI1)
  with assms(2) have both: "hex_string a = hex_string a' \<and> CHR ''-'' # r = CHR ''-'' # r'"
    by (rule rev_iffD1)
  from both have "hex_string a = hex_string a'" by (rule conjunct1)
  then have "a = a'" by (rule hex_string_inj)
  moreover from both have "CHR ''-'' # r = CHR ''-'' # r'" by (rule conjunct2)
  then have "r = r'" by simp
  ultimately show ?thesis by (rule conjI)
qed

lemma uuid_String_inj:
  assumes "length u = 16" "length u' = 16" "uuid_String u = uuid_String u'"
  shows "u = u'"
proof -
  let ?r3 = "\<lambda>u. hex_string (drop 10 u)"
  let ?r2 = "\<lambda>u. hex_string (take 2 (drop 8 u)) @ CHR ''-'' # ?r3 u"
  let ?r1 = "\<lambda>u. hex_string (take 2 (drop 6 u)) @ CHR ''-'' # ?r2 u"
  let ?r0 = "\<lambda>u. hex_string (take 2 (drop 4 u)) @ CHR ''-'' # ?r1 u"
  have e0: "hex_string (take 4 u) @ CHR ''-'' # ?r0 u = hex_string (take 4 u') @ CHR ''-'' # ?r0 u'"
    using assms(3) by (simp add: uuid_String_def)
  have l0: "length (take 4 u) = length (take 4 u')" using assms(1,2) by simp
  have l1: "length (take 2 (drop 4 u)) = length (take 2 (drop 4 u'))" using assms(1,2) by simp
  have l2: "length (take 2 (drop 6 u)) = length (take 2 (drop 6 u'))" using assms(1,2) by simp
  have l3: "length (take 2 (drop 8 u)) = length (take 2 (drop 8 u'))" using assms(1,2) by simp
  from uuid_group_eq [OF l0 e0] have g0: "take 4 u = take 4 u'" and e1: "?r0 u = ?r0 u'"
    by blast+
  from uuid_group_eq [OF l1 e1] have g1: "take 2 (drop 4 u) = take 2 (drop 4 u')"
    and e2: "?r1 u = ?r1 u'" by blast+
  from uuid_group_eq [OF l2 e2] have g2: "take 2 (drop 6 u) = take 2 (drop 6 u')"
    and e3: "?r2 u = ?r2 u'" by blast+
  from uuid_group_eq [OF l3 e3] have g3: "take 2 (drop 8 u) = take 2 (drop 8 u')"
    and e4: "?r3 u = ?r3 u'" by blast+
  from e4 have g4: "drop 10 u = drop 10 u'" by (rule hex_string_inj)
  have "u = take 4 u @ take 2 (drop 4 u) @ take 2 (drop 6 u) @ take 2 (drop 8 u) @ drop 10 u"
    by (rule uuid_groups [symmetric])
  also have "\<dots> = take 4 u' @ take 2 (drop 4 u') @ take 2 (drop 6 u') @ take 2 (drop 8 u') @ drop 10 u'"
    by (simp only: g0 g1 g2 g3 g4)
  also have "\<dots> = u'" by (rule uuid_groups)
  finally show ?thesis .
qed

lemma length_uuid_String: "length u = 16 \<Longrightarrow> length (uuid_String u) = 36"
  by (simp add: uuid_String_def)


lemma low4: "((x AND 15) OR 64) mod 16 = (x :: nat) mod 16"
proof -
  have "take_bit 4 ((x AND mask 4) OR 2 ^ 6) = take_bit 4 x"
    by (rule bit_eqI) (auto simp add: bit_simps)
  then show ?thesis by (simp add: take_bit_eq_mod mask_eq_exp_minus_1)
qed

lemma low6: "((x OR 64) AND 127) mod 64 = (x :: nat) mod 64"
proof -
  have "take_bit 6 ((x OR 2 ^ 6) AND mask 7) = take_bit 6 x"
    by (rule bit_eqI) (auto simp add: bit_simps)
  then show ?thesis by (simp add: take_bit_eq_mod mask_eq_exp_minus_1)
qed


lemma NewV4_eq:
  "fst (uuid_NewV4 (r, None)) = r[8 := char_of (((of_char (r ! 8) :: nat) OR 64) AND 127),
                 6 := char_of (((of_char (r ! 6) :: nat) AND 15) OR 64)]"
  by (cases "8 < length r")
     (simp_all add: uuid_NewV4_def setVersion_def setVariant_def ReservedRFC4122_def
        ReservedNCS_def)

lemma length_NewV4 [simp]: "length (fst (uuid_NewV4 (r, None))) = length r"
  by (simp add: NewV4_eq)

lemma char_of_eq_mod:
  assumes "char_of (a :: nat) = char_of (b :: nat)" "k dvd 256"
  shows "a mod k = b mod k"
proof -
  have "a mod 256 = b mod 256"
    using assms(1) by (simp add: char_of_eq_iff take_bit_eq_mod)
  then have "a mod 256 mod k = b mod 256 mod k" by simp
  then show ?thesis using assms(2) by (simp add: mod_mod_cancel)
qed

lemma NewV4_fibre:
  assumes len: "length r = 16" "length r0 = 16" and eq: "fst (uuid_NewV4 (r, None)) = fst (uuid_NewV4 (r0, None))"
  shows "r = r0[6 := char_of ((of_char (r ! 6) :: nat) div 16 * 16 + of_char (r0 ! 6) mod 16),
                8 := char_of ((of_char (r ! 8) :: nat) div 64 * 64 + of_char (r0 ! 8) mod 64)]"
proof (rule nth_equalityI)
  show "length r = length (r0[6 := char_of ((of_char (r ! 6) :: nat) div 16 * 16 + of_char (r0 ! 6) mod 16),
                8 := char_of ((of_char (r ! 8) :: nat) div 64 * 64 + of_char (r0 ! 8) mod 64)])"
    using len by simp
next
  fix i assume i: "i < length r"
  have nth: "fst (uuid_NewV4 (r, None)) ! i = fst (uuid_NewV4 (r0, None)) ! i" using eq by simp
  consider "i = 6" | "i = 8" | "i \<noteq> 6" "i \<noteq> 8" by blast
  then show "r ! i = r0[6 := char_of ((of_char (r ! 6) :: nat) div 16 * 16 + of_char (r0 ! 6) mod 16),
                8 := char_of ((of_char (r ! 8) :: nat) div 64 * 64 + of_char (r0 ! 8) mod 64)] ! i"
  proof cases
    case 1
    have "char_of (((of_char (r ! 6) :: nat) AND 15) OR 64) = char_of (((of_char (r0 ! 6) :: nat) AND 15) OR 64)"
      using nth 1 len by (simp add: NewV4_eq)
    then have "(((of_char (r ! 6) :: nat) AND 15) OR 64) mod 16 = (((of_char (r0 ! 6) :: nat) AND 15) OR 64) mod 16"
      by (rule char_of_eq_mod) simp
    then have "(of_char (r ! 6) :: nat) mod 16 = of_char (r0 ! 6) mod 16"
      by (simp only: low4)
    then have "(of_char (r ! 6) :: nat) div 16 * 16 + of_char (r0 ! 6) mod 16 = of_char (r ! 6)"
      using div_mult_mod_eq [of "of_char (r ! 6) :: nat" 16] by presburger
    then have "char_of ((of_char (r ! 6) :: nat) div 16 * 16 + of_char (r0 ! 6) mod 16) = r ! 6"
      by simp
    then show ?thesis using 1 len by simp
  next
    case 2
    have "char_of (((of_char (r ! 8) :: nat) OR 64) AND 127) = char_of (((of_char (r0 ! 8) :: nat) OR 64) AND 127)"
      using nth 2 len by (simp add: NewV4_eq)
    then have "(((of_char (r ! 8) :: nat) OR 64) AND 127) mod 64 = (((of_char (r0 ! 8) :: nat) OR 64) AND 127) mod 64"
      by (rule char_of_eq_mod) simp
    then have "(of_char (r ! 8) :: nat) mod 64 = of_char (r0 ! 8) mod 64"
      by (simp only: low6)
    then have "(of_char (r ! 8) :: nat) div 64 * 64 + of_char (r0 ! 8) mod 64 = of_char (r ! 8)"
      using div_mult_mod_eq [of "of_char (r ! 8) :: nat" 64] by presburger
    then have "char_of ((of_char (r ! 8) :: nat) div 64 * 64 + of_char (r0 ! 8) mod 64) = r ! 8"
      by simp
    then show ?thesis using 2 len by simp
  next
    case 3
    then show ?thesis using nth len i by (simp add: NewV4_eq)
  qed
qed

lemma fibre_image:
  assumes r0: "length r0 = 16" "uuid_String (fst (uuid_NewV4 (r0, None))) = s"
  shows "{r. length r = 16 \<and> uuid_String (fst (uuid_NewV4 (r, None))) = s}
     \<subseteq> (\<lambda>(a, b). r0[6 := char_of (a * 16 + (of_char (r0 ! 6) :: nat) mod 16),
                       8 := char_of (b * 64 + (of_char (r0 ! 8) :: nat) mod 64)])
         ` ({..<16 :: nat} \<times> {..<4 :: nat})"
proof
  let ?f = "\<lambda>(a, b). r0[6 := char_of (a * 16 + (of_char (r0 ! 6) :: nat) mod 16),
                       8 := char_of (b * 64 + (of_char (r0 ! 8) :: nat) mod 64)]"
  let ?D = "{..<16 :: nat} \<times> {..<4 :: nat}"
  fix r assume "r \<in> {r. length r = 16 \<and> uuid_String (fst (uuid_NewV4 (r, None))) = s}"
  then have r: "length r = 16" "uuid_String (fst (uuid_NewV4 (r, None))) = s" by simp_all
  have str: "uuid_String (fst (uuid_NewV4 (r, None))) = uuid_String (fst (uuid_NewV4 (r0, None)))"
    by (simp only: r(2) r0(2))
  have len: "length (fst (uuid_NewV4 (r, None))) = 16" "length (fst (uuid_NewV4 (r0, None))) = 16"
    by (simp_all only: length_NewV4 r(1) r0(1))
  have same: "fst (uuid_NewV4 (r, None)) = fst (uuid_NewV4 (r0, None))"
    by (rule uuid_String_inj [OF len str])
  let ?a = "(of_char (r ! 6) :: nat) div 16" and ?b = "(of_char (r ! 8) :: nat) div 64"
  have eq: "r = ?f (?a, ?b)"
    unfolding prod.case by (rule NewV4_fibre [OF r(1) r0(1) same])
  have "?a < 16" "?b < 4"
    using nat_of_char_less_256 [of "r ! 6"] nat_of_char_less_256 [of "r ! 8"] by arith+
  then have mem: "(?a, ?b) \<in> ?D"
    by simp
  show "r \<in> ?f ` ?D"
    using eq mem by (rule image_eqI [of r ?f "(?a, ?b)" ?D])
qed

lemma collisions_le:
  "card {r. length r = 16 \<and> uuid_String (fst (uuid_NewV4 (r, None))) = s} \<le> 2 ^ 6"
proof (cases "{r. length r = 16 \<and> uuid_String (fst (uuid_NewV4 (r, None))) = s} = {}")
  case True
  show ?thesis unfolding True by simp
next
  case False
  let ?S = "{r. length r = 16 \<and> uuid_String (fst (uuid_NewV4 (r, None))) = s}"
  from False obtain r0 where r0: "length r0 = 16" "uuid_String (fst (uuid_NewV4 (r0, None))) = s"
    by blast
  let ?f = "\<lambda>(a, b). r0[6 := char_of (a * 16 + (of_char (r0 ! 6) :: nat) mod 16),
                       8 := char_of (b * 64 + (of_char (r0 ! 8) :: nat) mod 64)]"
  let ?D = "{..<16 :: nat} \<times> {..<4 :: nat}"
  have sub: "?S \<subseteq> ?f ` ?D"
    using r0 by (rule fibre_image)
  have fin: "finite ?D"
    by (intro finite_cartesian_product finite_lessThan)
  then have "finite (?f ` ?D)"
    by (rule finite_imageI)
  then have "card ?S \<le> card (?f ` ?D)"
    using sub by (rule card_mono)
  also have "\<dots> \<le> card ?D"
    using fin by (rule card_image_le)
  also have "\<dots> = 16 * 4"
    by (simp only: card_cartesian_product card_lessThan)
  finally show ?thesis by simp
qed

lemma card_draws: "card {r :: bytes. length r = 16} = 2 ^ 128"
  using card_lists_length_eq [of "UNIV :: char set" 16] by (simp add: card_UNIV_char)

section \<open>Theorems\<close>

subsection \<open>Frames without the delimiter\<close>

text \<open>
  C3. For frames none of which is the delimiter \<open><IDS|MSG>\<close>, and every key, spare
  capacity and JSON library, the scan of \<open>WireMsgToComposedMsg\<close> runs past the last
  frame: the call panics with an index out of range. It returns neither a message nor
  an error value.
\<close>

theorem no_delimiter_panics:
  "''<IDS|MSG>'' \<notin> set msgparts \<Longrightarrow> WireMsgToComposedMsg J msgparts spare signkey = Panic"
  by (simp add: WireMsgToComposedMsg_def scan_delimiter_Panic)

theorem no_delimiter_panics_witness:
  "''<IDS|MSG>'' \<notin> set [''A1'', ''{}'']
   \<and> WireMsgToComposedMsg go_json [''A1'', ''{}''] [] ''secret'' = Panic"
  using no_delimiter_panics [of "[''A1'', ''{}'']" go_json "[]" "''secret''"] by simp

subsection \<open>Fewer than five frames after the delimiter\<close>

text \<open>
  C4. For frames with the delimiter and fewer than five frames after it, the call
  panics when the key is empty, when no frame follows the delimiter, or when the
  backing array ends before the sixth index after the delimiter; in every case it
  panics or returns \<open>InvalidSignatureError\<close> with the zero message. It never returns
  an error for the malformed envelope.
\<close>

theorem truncated_envelope_panics:
  assumes "''<IDS|MSG>'' \<notin> set ids" and "length rest < 5"
  shows "(signkey = [] \<or> rest = [] \<or> length rest + length spare < 5
            \<longrightarrow> WireMsgToComposedMsg J (ids @ ''<IDS|MSG>'' # rest) spare signkey = Panic)
       \<and> (WireMsgToComposedMsg J (ids @ ''<IDS|MSG>'' # rest) spare signkey = Panic
            \<or> WireMsgToComposedMsg J (ids @ ''<IDS|MSG>'' # rest) spare signkey
                = Return (zero_ComposedMsg, [], Some InvalidSignatureError))"
proof (cases "signkey = []")
  case True
  with assms show ?thesis
    by (auto simp add: decode_unsigned parse_fields_def bind_def index_def split: outcome.splits)
next
  case False
  with assms show ?thesis
    by (auto simp add: decode_signed parse_fields_def bind_def index_def slice_def
        split: outcome.splits prod.splits)
qed

theorem truncated_envelope_panics_witness:
  "''<IDS|MSG>'' \<notin> set [''A1''] \<and> length [[], ''{}'', ''{}'', ''{}''] < (5 :: nat)
   \<and> WireMsgToComposedMsg go_json ([''A1''] @ ''<IDS|MSG>'' # [[], ''{}'', ''{}'', ''{}'']) [] [] = Panic"
  using truncated_envelope_panics [of "[''A1'']" "[[], ''{}'', ''{}'', ''{}'']" "[]" "[]" go_json]
  by simp

subsection \<open>The empty key\<close>

text \<open>
  C6. With the empty key, \<open>ToWireMsg\<close> returns five frames of which frame 0 is empty;
  \<open>WireMsgToComposedMsg\<close> never returns an error value, whatever the frames; and its
  result does not depend on the signature frame.
\<close>

theorem empty_key_trust:
  "(\<exists>frames. ToWireMsg J msg [] = Return frames \<and> length frames = 5 \<and> frames ! 0 = [])
   \<and> WireMsgToComposedMsg J msgparts spare [] \<noteq> Return (m, ids', Some e)
   \<and> (''<IDS|MSG>'' \<notin> set ids \<longrightarrow>
        WireMsgToComposedMsg J (ids @ ''<IDS|MSG>'' # sig # rest) spare []
          = WireMsgToComposedMsg J (ids @ ''<IDS|MSG>'' # sig' # rest) spare [])"
proof (intro conjI impI)
  show "\<exists>frames. ToWireMsg J msg [] = Return frames \<and> length frames = 5 \<and> frames ! 0 = []"
    by (simp add: ToWireMsg_frames signature_frame_def)
  show "WireMsgToComposedMsg J msgparts spare [] \<noteq> Return (m, ids', Some e)"
    by (cases "scan_delimiter msgparts 0")
       (auto simp add: WireMsgToComposedMsg_def bind_def split: outcome.splits)
  show "WireMsgToComposedMsg J (ids @ ''<IDS|MSG>'' # sig # rest) spare []
          = WireMsgToComposedMsg J (ids @ ''<IDS|MSG>'' # sig' # rest) spare []"
    if "''<IDS|MSG>'' \<notin> set ids"
    using that by (simp add: decode_unsigned parse_fields_def index_def)
qed

theorem empty_key_trust_witness:
  "(\<exists>frames. ToWireMsg go_json example_msg [] = Return frames \<and> length frames = 5
       \<and> frames ! 0 = [])
   \<and> WireMsgToComposedMsg go_json [''A1'', ''<IDS|MSG>'', ''zz'', ''{}'', ''{}'', ''{}'', ''null''] [] []
        \<noteq> Return (example_msg, [''A1''], Some InvalidSignatureError)
   \<and> ''<IDS|MSG>'' \<notin> set [''A1'']
   \<and> WireMsgToComposedMsg go_json ([''A1''] @ ''<IDS|MSG>'' # ''zz'' # [''{}'', ''{}'', ''{}'', ''null'']) [] []
        = WireMsgToComposedMsg go_json ([''A1''] @ ''<IDS|MSG>'' # [] # [''{}'', ''{}'', ''{}'', ''null'']) [] []"
  using empty_key_trust [of go_json example_msg
      "[''A1'', ''<IDS|MSG>'', ''zz'', ''{}'', ''{}'', ''{}'', ''null'']" "[]" example_msg "[''A1'']"
      InvalidSignatureError "[''A1'']" "''zz''" "[''{}'', ''{}'', ''{}'', ''null'']" "[]"]
  by (simp del: append.simps)

subsection \<open>NewMsg\<close>

text \<open>
  C7. The message of \<open>NewMsg\<close> has the parent's header as its parent header (the struct
  is copied: a value, which nothing done to the parent afterwards reaches), the parent's
  session and user name, the given message type, and nil metadata and content. Its
  message id is freshly generated: whatever the message type and the parent are, it is
  the text of the UUID that \<open>uuid.NewV4\<close> makes of the bytes drawn from the random
  source. It is distinct from the parent's id for all but at most \<open>2 ^ 6\<close> of the \<open>2 ^ 128\<close>
  sequences of 16 bytes that \<open>rand.Read\<close> can deliver: for a uniform draw, with
  probability at least \<open>1 - 1 / 2 ^ 122\<close>.
\<close>

theorem NewMsg_fields:
  "Parent_header (NewMsg msg_type parent d) = Header parent
   \<and> Session (Header (NewMsg msg_type parent d)) = Session (Header parent)
   \<and> Username (Header (NewMsg msg_type parent d)) = Username (Header parent)
   \<and> Msg_type (Header (NewMsg msg_type parent d)) = msg_type
   \<and> Msg_id (Header (NewMsg msg_type parent d)) = uuid_String (fst (uuid_NewV4 d))
   \<and> Metadata (NewMsg msg_type parent d) = None
   \<and> Content (NewMsg msg_type parent d) = None
   \<and> card {r. length r = 16
          \<and> Msg_id (Header (NewMsg msg_type parent (r, None))) = Msg_id (Header parent)} \<le> 2 ^ 6
   \<and> card {r :: bytes. length r = 16} = 2 ^ 128"
proof -
  have id: "Msg_id (Header (NewMsg msg_type parent e)) = uuid_String (fst (uuid_NewV4 e))" for e
    by (simp add: NewMsg_def Let_def zero_ComposedMsg_def zero_MsgHeader_def)
  have fields: "Parent_header (NewMsg msg_type parent d) = Header parent
     \<and> Session (Header (NewMsg msg_type parent d)) = Session (Header parent)
     \<and> Username (Header (NewMsg msg_type parent d)) = Username (Header parent)
     \<and> Msg_type (Header (NewMsg msg_type parent d)) = msg_type"
    by (simp add: NewMsg_def Let_def zero_ComposedMsg_def zero_MsgHeader_def)
  have nil: "Metadata (NewMsg msg_type parent d) = None \<and> Content (NewMsg msg_type parent d) = None"
    by (simp add: NewMsg_def Let_def zero_ComposedMsg_def zero_MsgHeader_def)
  have "{r. length r = 16
          \<and> Msg_id (Header (NewMsg msg_type parent (r, None))) = Msg_id (Header parent)}
      = {r. length r = 16 \<and> uuid_String (fst (uuid_NewV4 (r, None))) = Msg_id (Header parent)}"
    by (simp only: id)
  then have few: "card {r. length r = 16
          \<and> Msg_id (Header (NewMsg msg_type parent (r, None))) = Msg_id (Header parent)} \<le> 2 ^ 6"
    using collisions_le [of "Msg_id (Header parent)"] by (simp only:)
  from fields id [of d] nil few card_draws show ?thesis by blast
qed

text \<open>
  The reply to the message of the worked example, for one draw: byte 6 of the draw,
  \<open>0x3C\<close>, becomes \<open>0x4C\<close> (version 4) and byte 8, \<open>0x89\<close>, becomes \<open>0x49\<close> (the variant).
\<close>

theorem NewMsg_fields_witness:
  "Parent_header (NewMsg ''execute_reply'' example_msg example_draw) = example_header
   \<and> Session (Header (NewMsg ''execute_reply'' example_msg example_draw)) = ''s''
   \<and> Username (Header (NewMsg ''execute_reply'' example_msg example_draw)) = ''u''
   \<and> Msg_type (Header (NewMsg ''execute_reply'' example_msg example_draw)) = ''execute_reply''
   \<and> Msg_id (Header (NewMsg ''execute_reply'' example_msg example_draw))
       = ''6fa459ea-ee8a-4ca4-494e-db77e160355e''
   \<and> Msg_id (Header (NewMsg ''execute_reply'' example_msg example_draw))
       \<noteq> Msg_id (Header example_msg)"
proof -
  have "uuid_String (fst (uuid_NewV4 example_draw)) = ''6fa459ea-ee8a-4ca4-494e-db77e160355e''"
    by code_simp
  then show ?thesis
    using NewMsg_fields [of "''execute_reply''" example_msg example_draw]
    by (simp add: example_msg_def example_header_def)
qed

subsection \<open>The metadata frame\<close>

text \<open>
  C8. For a message whose metadata mapping is nil or empty, and every key, frame 3 of
  \<open>ToWireMsg\<close> is what the library writes for an empty map: \<open>{}\<close> for a library
  that writes an empty map so, and not \<open>null\<close>.
\<close>

theorem metadata_frame:
  assumes "Metadata msg = None \<or> Metadata msg = Some Map.empty"
    and "fst (Marshal_map J (Some Map.empty)) = ''{}''"
  shows "\<exists>frames. ToWireMsg J msg key = Return frames \<and> frames ! 3 = ''{}'' \<and> frames ! 3 \<noteq> ''null''"
  using assms by (auto simp add: ToWireMsg_frames with_metadata_def)

theorem metadata_frame_witness:
  "(Metadata (example_msg\<lparr>Metadata := None\<rparr>) = None
      \<or> Metadata (example_msg\<lparr>Metadata := None\<rparr>) = Some Map.empty)
   \<and> fst (Marshal_map go_json (Some Map.empty)) = ''{}''
   \<and> (\<exists>frames. ToWireMsg go_json (example_msg\<lparr>Metadata := None\<rparr>) ''secret'' = Return frames
         \<and> frames ! 3 = ''{}'' \<and> frames ! 3 \<noteq> ''null'')"
proof -
  have a: "Metadata (example_msg\<lparr>Metadata := None\<rparr>) = None
      \<or> Metadata (example_msg\<lparr>Metadata := None\<rparr>) = Some Map.empty"
    by simp
  have b: "fst (Marshal_map go_json (Some Map.empty)) = ''{}''"
    by (simp add: go_json_def json_Marshal_map_def)
  from a b metadata_frame [OF a b, of "''secret''"] show ?thesis by blast
qed

subsection \<open>Encoding and decoding\<close>

text \<open>
  C1, as amended. Let the identities hold no frame equal to the delimiter, and let the
  JSON library give back each of the four values of the message from its text, the
  metadata mapping taken as the empty mapping when it is unset. Then for every key (the
  empty one too) \<open>SendResponse\<close> writes the identities, the delimiter and the five
  frames, and \<open>WireMsgToComposedMsg\<close> on them returns that message, with an unset
  metadata mapping made an empty one, together with the identities and no error.
\<close>

theorem round_trip:
  assumes "''<IDS|MSG>'' \<notin> set (Identities receipt)"
    and "json_round_trip J (with_metadata msg)"
  shows "\<exists>wire. SendResponse J receipt msg = Return wire
           \<and> WireMsgToComposedMsg J wire spare (Sockets_Key receipt)
               = Return (with_metadata msg, Identities receipt, None)"
proof -
  let ?h = "fst (Marshal_MsgHeader J (Header msg))"
  let ?p = "fst (Marshal_MsgHeader J (Parent_header msg))"
  let ?m = "fst (Marshal_map J (Metadata (with_metadata msg)))"
  let ?c = "fst (Marshal_iface J (Content msg))"
  let ?key = "Sockets_Key receipt"
  let ?sig = "signature_frame ?key [?h, ?p, ?m, ?c]"
  let ?wire = "Identities receipt @ ''<IDS|MSG>'' # [?sig, ?h, ?p, ?m, ?c]"
  have fields: "Header (with_metadata msg) = Header msg"
    "Parent_header (with_metadata msg) = Parent_header msg"
    "Content (with_metadata msg) = Content msg"
    by (simp_all add: with_metadata_def)
  have parsed: "parse_fields J [?sig, ?h, ?p, ?m, ?c] (Identities receipt)
      = Return (with_metadata msg, Identities receipt, None)"
    using assms(2) by (simp add: parse_fields_five json_round_trip_def fields)
  have sent: "SendResponse J receipt msg = Return ?wire"
    by (simp add: SendResponse_def ToWireMsg_frames)
  have "WireMsgToComposedMsg J ?wire spare ?key = Return (with_metadata msg, Identities receipt, None)"
  proof (cases "?key = []")
    case True
    then show ?thesis
      using assms(1) parsed by (simp add: decode_unsigned)
  next
    case False
    then have sig: "?sig = hex_string (hmac_sha256 ?key (?h @ ?p @ ?m @ ?c))"
      by (simp add: signature_frame_def)
    have "hex_Decode (make_bytes (hex_DecodedLen (length ?sig))) ?sig
        = Return (hmac_sha256 ?key (?h @ ?p @ ?m @ ?c), 32, None)"
      unfolding sig using hex_Decode_hex_string [of "hmac_sha256 ?key (?h @ ?p @ ?m @ ?c)"]
      by simp
    from decode_signed_five [OF assms(1) False this, of J ?h ?p ?m ?c "[]" spare] parsed
    show ?thesis by simp
  qed
  with sent show ?thesis by blast
qed

theorem round_trip_witness:
  "''<IDS|MSG>'' \<notin> set (Identities \<lparr>Msg = example_msg, Identities = [''A1''], Sockets_Key = ''secret''\<rparr>)
   \<and> json_round_trip go_json (with_metadata example_msg)
   \<and> (\<exists>wire. SendResponse go_json
          \<lparr>Msg = example_msg, Identities = [''A1''], Sockets_Key = ''secret''\<rparr> example_msg = Return wire
        \<and> WireMsgToComposedMsg go_json wire []
            (Sockets_Key \<lparr>Msg = example_msg, Identities = [''A1''], Sockets_Key = ''secret''\<rparr>)
          = Return (with_metadata example_msg,
              Identities \<lparr>Msg = example_msg, Identities = [''A1''], Sockets_Key = ''secret''\<rparr>, None))"
proof -
  have a: "''<IDS|MSG>'' \<notin> set (Identities \<lparr>Msg = example_msg, Identities = [''A1''], Sockets_Key = ''secret''\<rparr>)"
    by simp
  from a go_json_example round_trip [OF a go_json_example, of "[]"] show ?thesis by blast
qed

text \<open>
  The claim as stated fails for an identity frame equal to the delimiter: the scan stops
  at it, and what comes back is neither the identities nor the message.
\<close>

theorem round_trip_counterexample:
  \<open>SendResponse go_json \<lparr>Msg = example_msg, Identities = [''<IDS|MSG>''], Sockets_Key = []\<rparr> example_msg
     = Return [''<IDS|MSG>'', ''<IDS|MSG>'', [],
         ''{"msg_id":"1","username":"u","session":"s","msg_type":"execute_request"}'',
         ''{"msg_id":"","username":"","session":"","msg_type":""}'', ''{}'', ''{"code":"1+1"}'']
   \<and> WireMsgToComposedMsg go_json [''<IDS|MSG>'', ''<IDS|MSG>'', [],
         ''{"msg_id":"1","username":"u","session":"s","msg_type":"execute_request"}'',
         ''{"msg_id":"","username":"","session":"","msg_type":""}'', ''{}'', ''{"code":"1+1"}''] [] []
     \<noteq> Return (example_msg, [''<IDS|MSG>''], None)\<close>
proof (intro conjI)
  show \<open>SendResponse go_json \<lparr>Msg = example_msg, Identities = [''<IDS|MSG>''], Sockets_Key = []\<rparr> example_msg
     = Return [''<IDS|MSG>'', ''<IDS|MSG>'', [],
         ''{"msg_id":"1","username":"u","session":"s","msg_type":"execute_request"}'',
         ''{"msg_id":"","username":"","session":"","msg_type":""}'', ''{}'', ''{"code":"1+1"}'']\<close>
    by (simp add: SendResponse_def ToWireMsg_frames signature_frame_def with_metadata_def
        example_msg_def example_header_def zero_MsgHeader_def go_json_def
        json_Marshal_MsgHeader_def json_Marshal_map_def json_Marshal_iface_def quote_def)
  show \<open>WireMsgToComposedMsg go_json [''<IDS|MSG>'', ''<IDS|MSG>'', [],
         ''{"msg_id":"1","username":"u","session":"s","msg_type":"execute_request"}'',
         ''{"msg_id":"","username":"","session":"","msg_type":""}'', ''{}'', ''{"code":"1+1"}''] [] []
     \<noteq> Return (example_msg, [''<IDS|MSG>''], None)\<close>
    by (simp add: WireMsgToComposedMsg_def scan_delimiter_first index_def)
qed

subsection \<open>Errors of json.Unmarshal\<close>

text \<open>
  C5, as amended. For an envelope with five frames after the delimiter whose signature
  check passes (or whose key is empty), \<open>WireMsgToComposedMsg\<close> returns no error
  whatever errors the four calls of \<open>json.Unmarshal\<close> return: each field holds what
  its call left in the target, which started as the zero value.
\<close>

theorem unmarshal_errors_dropped:
  assumes "''<IDS|MSG>'' \<notin> set ids"
    and "signkey = [] \<or>
         (\<exists>n err. hex_Decode (make_bytes (hex_DecodedLen (length sig))) sig
                    = Return (hmac_sha256 signkey (h @ p @ m @ c), n, err))"
  shows "WireMsgToComposedMsg J (ids @ ''<IDS|MSG>'' # sig # h # p # m # c # extra) spare signkey =
     Return
       (\<lparr>Header = fst (Unmarshal_MsgHeader J h zero_MsgHeader),
         Parent_header = fst (Unmarshal_MsgHeader J p zero_MsgHeader),
         Metadata = fst (Unmarshal_map J m None),
         Content = fst (Unmarshal_iface J c None)\<rparr>,
        ids, None)"
proof (cases "signkey = []")
  case True
  with assms(1) show ?thesis by (simp add: decode_unsigned parse_fields_five)
next
  case False
  with assms(2) obtain n err where
    "hex_Decode (make_bytes (hex_DecodedLen (length sig))) sig
       = Return (hmac_sha256 signkey (h @ p @ m @ c), n, err)"
    by blast
  from decode_signed_five [OF assms(1) False this, where J = J and h = h and p = p and m = m
      and c = c and extra = extra and spare = spare]
  show ?thesis by (simp add: parse_fields_five)
qed

theorem unmarshal_errors_dropped_witness:
  \<open>''<IDS|MSG>'' \<notin> set [''A1'']
   \<and> snd (Unmarshal_MsgHeader go_json ''x'' zero_MsgHeader) = Some SyntaxError
   \<and> WireMsgToComposedMsg go_json ([''A1''] @ ''<IDS|MSG>'' # ''zz'' # ''x'' # ''{}'' # ''{}'' # ''null'' # []) [] []
       = Return
         (\<lparr>Header = fst (Unmarshal_MsgHeader go_json ''x'' zero_MsgHeader),
           Parent_header = fst (Unmarshal_MsgHeader go_json ''{}'' zero_MsgHeader),
           Metadata = fst (Unmarshal_map go_json ''{}'' None),
           Content = fst (Unmarshal_iface go_json ''null'' None)\<rparr>,
          [''A1''], None)\<close>
proof -
  have a: "''<IDS|MSG>'' \<notin> set [''A1'']" by simp
  have b: \<open>snd (Unmarshal_MsgHeader go_json ''x'' zero_MsgHeader) = Some SyntaxError\<close>
    by (simp add: go_json_def json_reads)
  from a b unmarshal_errors_dropped [OF a, of "[]" "''zz''" "''x''" "''{}''" "''{}''" "''null''"
      go_json "[]" "[]"]
  show ?thesis by simp
qed

text \<open>
  The claim as stated fails: the header frame \<open>x\<close> is not JSON, \<open>json.Unmarshal\<close>
  reports a syntax error, and the call returns a message with the zero header and no
  error.
\<close>

theorem unmarshal_error_counterexample:
  \<open>snd (Unmarshal_MsgHeader go_json ''x'' zero_MsgHeader) = Some SyntaxError
   \<and> WireMsgToComposedMsg go_json [''<IDS|MSG>'', [], ''x'', ''{}'', ''{}'', ''null''] [] []
       = Return
         (\<lparr>Header = zero_MsgHeader, Parent_header = zero_MsgHeader,
           Metadata = Some Map.empty, Content = None\<rparr>, [], None)\<close>
  by (simp add: WireMsgToComposedMsg_def scan_delimiter_first index_def go_json_def json_reads)

subsection \<open>The signature check\<close>

text \<open>
  C2, as amended. For a non-empty key and an envelope with five frames after the
  delimiter, whenever the bytes that \<open>hex.Decode\<close> leaves for the signature frame
  differ from the MAC of the four JSON frames, \<open>WireMsgToComposedMsg\<close> returns
  \<open>InvalidSignatureError\<close> with the zero message and no identities: no frame is
  parsed, whatever the JSON library.
\<close>

theorem tampered_envelope_rejected:
  assumes "''<IDS|MSG>'' \<notin> set ids" and "signkey \<noteq> []"
    and "hex_Decode (make_bytes (hex_DecodedLen (length sig))) sig = Return (signature, n, err)"
    and "signature \<noteq> hmac_sha256 signkey (h @ p @ m @ c)"
  shows "WireMsgToComposedMsg J (ids @ ''<IDS|MSG>'' # sig # h # p # m # c # extra) spare signkey
     = Return (zero_ComposedMsg, [], Some InvalidSignatureError)"
  using decode_signed_five [OF assms(1-3), where J = J and h = h and p = p and m = m
      and c = c and extra = extra and spare = spare] assms(4)
  by simp

theorem tampered_envelope_rejected_witness:
  \<open>''<IDS|MSG>'' \<notin> set [''A1''] \<and> ''secret'' \<noteq> []
   \<and> hex_Decode (make_bytes (hex_DecodedLen (length ''00ff''))) ''00ff''
        = Return ([CHR 0x00, CHR 0xFF], 2, None)
   \<and> [CHR 0x00, CHR 0xFF] \<noteq> hmac_sha256 ''secret'' (''{}'' @ ''{}'' @ ''{}'' @ ''null'')
   \<and> WireMsgToComposedMsg go_json ([''A1''] @ ''<IDS|MSG>'' # ''00ff'' # ''{}'' # ''{}'' # ''{}'' # ''null'' # []) [] ''secret''
        = Return (zero_ComposedMsg, [], Some InvalidSignatureError)\<close>
proof -
  have a: "''<IDS|MSG>'' \<notin> set [''A1'']" and b: "''secret'' \<noteq> []" by simp_all
  have c: "hex_Decode (make_bytes (hex_DecodedLen (length ''00ff''))) ''00ff''
        = Return ([CHR 0x00, CHR 0xFF], 2, None)"
    by (simp add: hex_Decode_def make_bytes_def hex_DecodedLen_def fromHexChar_def
        char_of_def bit_0)
  have "length [CHR 0x00, CHR 0xFF] \<noteq> length (hmac_sha256 ''secret'' (''{}'' @ ''{}'' @ ''{}'' @ ''null''))"
    by (simp only: length_hmac_sha256) simp
  then have d: "[CHR 0x00, CHR 0xFF] \<noteq> hmac_sha256 ''secret'' (''{}'' @ ''{}'' @ ''{}'' @ ''null'')"
    by metis
  from a b c d tampered_envelope_rejected [OF a b c d, of go_json "[]" "[]"]
  show ?thesis by blast
qed

subsection \<open>ToWireMsg and the caller's message\<close>

text \<open>
  C10. \<open>ToWireMsg\<close> leaves the caller's message as it was: the caller's struct is
  unchanged, every map of the store that existed before the call is unchanged, and so
  is the message the caller's struct denotes (a nil metadata mapping stays nil). The
  receiver's copy does get a metadata mapping, and the frames are those of
  \<open>ToWireMsg\<close> on the caller's message.
\<close>

theorem ToWireMsg_keeps_caller:
  assumes "case Metadata_ref (caller s) of None \<Rightarrow> True | Some a \<Rightarrow> a < length (store s)"
  shows "caller (fst (ToWireMsg_on J s signkey)) = caller s
       \<and> take (length (store s)) (store (fst (ToWireMsg_on J s signkey))) = store s
       \<and> load (store (fst (ToWireMsg_on J s signkey))) (caller (fst (ToWireMsg_on J s signkey)))
           = load (store s) (caller s)
       \<and> Metadata_ref (receiver (fst (ToWireMsg_on J s signkey))) \<noteq> None
       \<and> snd (ToWireMsg_on J s signkey) = ToWireMsg J (load (store s) (caller s)) signkey"
proof -
  have "caller (fst (ToWireMsg_on J s signkey)) = caller s"
    by (simp add: ToWireMsg_on_def Let_def)
  moreover have "take (length (store s)) (store (fst (ToWireMsg_on J s signkey))) = store s"
    by (simp add: ToWireMsg_on_def Let_def)
  moreover have "load (store (fst (ToWireMsg_on J s signkey))) (caller s) = load (store s) (caller s)"
    using assms
    by (cases "Metadata_ref (caller s)")
       (simp_all add: ToWireMsg_on_def Let_def load_def deref_def nth_append)
  moreover have "Metadata_ref (receiver (fst (ToWireMsg_on J s signkey))) \<noteq> None"
    by (simp add: ToWireMsg_on_def Let_def)
  ultimately show ?thesis
    using ToWireMsg_on_frames [OF assms] by simp
qed

theorem ToWireMsg_keeps_caller_witness:
  "(case Metadata_ref (caller example_machine) of None \<Rightarrow> True
      | Some a \<Rightarrow> a < length (store example_machine))
   \<and> Metadata_ref (caller example_machine) = None
   \<and> caller (fst (ToWireMsg_on go_json example_machine ''secret'')) = caller example_machine
   \<and> Metadata (load (store (fst (ToWireMsg_on go_json example_machine ''secret'')))
         (caller (fst (ToWireMsg_on go_json example_machine ''secret'')))) = None
   \<and> Metadata_ref (receiver (fst (ToWireMsg_on go_json example_machine ''secret''))) \<noteq> None"
proof -
  have a: "case Metadata_ref (caller example_machine) of None \<Rightarrow> True
      | Some a \<Rightarrow> a < length (store example_machine)"
    by (simp add: example_machine_def)
  have b: "Metadata_ref (caller example_machine) = None"
    by (simp add: example_machine_def)
  then have c: "Metadata (load (store example_machine) (caller example_machine)) = None"
    by (simp add: load_def deref_def)
  note t = ToWireMsg_keeps_caller [OF a, of go_json "''secret''"]
  from t have t1: "caller (fst (ToWireMsg_on go_json example_machine ''secret'')) = caller example_machine"
    by blast
  from t have "load (store (fst (ToWireMsg_on go_json example_machine ''secret'')))
         (caller (fst (ToWireMsg_on go_json example_machine ''secret'')))
       = load (store example_machine) (caller example_machine)"
    by blast
  with c have t3: "Metadata (load (store (fst (ToWireMsg_on go_json example_machine ''secret'')))
         (caller (fst (ToWireMsg_on go_json example_machine ''secret'')))) = None"
    by (simp only:)
  from t have t4: "Metadata_ref (receiver (fst (ToWireMsg_on go_json example_machine ''secret''))) \<noteq> None"
    by blast
  from a b t1 t3 t4 show ?thesis by blast
qed

end
